theory Spec2Isabelle
  imports Complex_Main "HOL-Library.Sublist"
begin

text \<open>
  A model of the recommender of the repository: the matrix and vector utilities
  (\<open>matrix.ts\<close>), the rated network (\<open>rated-network.ts\<close>), the profile learners
  (\<open>profile-learner.ts\<close>) and the recommendation algorithms
  (\<open>recommendation-algorithm.ts\<close>). Every function of the sources is a function here
  with the same name; an exception is a value \<open>Inl e\<close> of a sum type, \<open>Math.random()\<close>
  is a parameter, and the one loop without a bound is a partial function. Numbers are
  IEEE double-precision numbers: every arithmetic operation rounds its exact result.
  The definitions come first, the properties after them.
\<close>

section \<open>Run-time values of the TypeScript sources\<close>

text \<open>
  The sources are TypeScript, executed as JavaScript. A \<open>number\<close> is an IEEE 754
  double-precision number: a finite double, given by the real that it denotes, one of
  the two infinities, or NaN. The sign of zero is not modelled.
\<close>

datatype number = Fin real | PosInf | NegInf | NaN

text \<open>
  The finite doubles are the reals \<open>m * 2^e\<close> with \<open>|m| < 2^53\<close> and
  \<open>-1074 \<le> e \<le> 971\<close>; the largest is \<open>max_double\<close>.
\<close>

definition max_double :: real where
  "max_double = (2 ^ 53 - 1) * 2 ^ 971"

text \<open>The nearest integer, the even one of the two when they are equally near.\<close>

definition round_even :: "real \<Rightarrow> int" where
  "round_even y =
     (let f = \<lfloor>y\<rfloor>; d = y - of_int f
      in if d < 1 / 2 then f else if 1 / 2 < d then f + 1 else if even f then f else f + 1)"

text \<open>The exponent of the unit in the last place of the doubles around \<open>x\<close>: 52 binary
  digits below the leading one, and never below the subnormal spacing \<open>2^-1074\<close>.\<close>

definition ulp_exponent :: "real \<Rightarrow> int" where
  "ulp_exponent x = max (- 1074) (\<lfloor>log 2 \<bar>x\<bar>\<rfloor> - 52)"

text \<open>
  Rounding to nearest, ties to even: the double that an operation returns when its
  exact result is \<open>x\<close>. A result that rounds beyond the largest double is an infinity.
\<close>

definition rd :: "real \<Rightarrow> number" where
  "rd x =
     (if x = 0 then Fin 0
      else let e = ulp_exponent x;
               r = of_int (round_even (x / 2 powr of_int e)) * 2 powr of_int e
           in if max_double < r then PosInf else if r < - max_double then NegInf else Fin r)"

text \<open>
  What an array declared \<open>number[]\<close> or \<open>Rating[]\<close> can hold when the program runs:
  a number, \<open>null\<close> (an unrated entry) or \<open>undefined\<close> (an unfilled slot).
\<close>

datatype jsval = N number | Null | Undefined

text \<open>A finite number; the reals that the sources and the examples write are doubles.\<close>

abbreviation Num :: "real \<Rightarrow> jsval" where
  "Num r \<equiv> N (Fin r)"

text \<open>The coercion ToNumber that every arithmetic operator and comparison applies.\<close>

fun toNumber :: "jsval \<Rightarrow> number" where
  "toNumber (N x) = x"
| "toNumber Null = Fin 0"
| "toNumber Undefined = NaN"

fun nneg :: "number \<Rightarrow> number" where
  "nneg (Fin a) = Fin (- a)"
| "nneg PosInf = NegInf"
| "nneg NegInf = PosInf"
| "nneg NaN = NaN"

fun nadd :: "number \<Rightarrow> number \<Rightarrow> number" where
  "nadd (Fin a) (Fin b) = rd (a + b)"
| "nadd NaN y = NaN"
| "nadd x NaN = NaN"
| "nadd PosInf NegInf = NaN"
| "nadd NegInf PosInf = NaN"
| "nadd PosInf y = PosInf"
| "nadd x PosInf = PosInf"
| "nadd NegInf y = NegInf"
| "nadd x NegInf = NegInf"

definition nsub :: "number \<Rightarrow> number \<Rightarrow> number" where
  "nsub x y = nadd x (nneg y)"

text \<open>The sign of a number that is not NaN: \<open>-1\<close>, \<open>0\<close> or \<open>1\<close>.\<close>

fun nsign :: "number \<Rightarrow> int" where
  "nsign (Fin a) = (if a < 0 then -1 else if a = 0 then 0 else 1)"
| "nsign PosInf = 1"
| "nsign NegInf = -1"
| "nsign NaN = 0"

definition inf_of_sign :: "int \<Rightarrow> number" where
  "inf_of_sign s = (if s = 0 then NaN else if 0 < s then PosInf else NegInf)"

fun nmul :: "number \<Rightarrow> number \<Rightarrow> number" where
  "nmul (Fin a) (Fin b) = rd (a * b)"
| "nmul NaN y = NaN"
| "nmul x NaN = NaN"
| "nmul x y = inf_of_sign (nsign x * nsign y)"

fun ndiv :: "number \<Rightarrow> number \<Rightarrow> number" where
  "ndiv (Fin a) (Fin b) = (if b = 0 then inf_of_sign (nsign (Fin a)) else rd (a / b))"
| "ndiv NaN y = NaN"
| "ndiv x NaN = NaN"
| "ndiv (Fin a) y = Fin 0"
| "ndiv x (Fin b) = inf_of_sign (nsign x * (if b < 0 then -1 else 1))"
| "ndiv x y = NaN"

fun nlt :: "number \<Rightarrow> number \<Rightarrow> bool" where
  "nlt (Fin a) (Fin b) = (a < b)"
| "nlt NaN y = False"
| "nlt x NaN = False"
| "nlt PosInf y = False"
| "nlt x PosInf = True"
| "nlt x NegInf = False"
| "nlt NegInf y = True"

text \<open>\<open>Math.sqrt\<close> is correctly rounded.\<close>

fun nsqrt :: "number \<Rightarrow> number" where
  "nsqrt (Fin a) = (if a < 0 then NaN else rd (sqrt a))"
| "nsqrt PosInf = PosInf"
| "nsqrt NegInf = NaN"
| "nsqrt NaN = NaN"

text \<open>
  The language asks of \<open>Math.exp\<close> an approximation of the exponential and fixes only
  its value at zero, at the infinities and at NaN; the model takes the correctly rounded
  value. Nothing that is proved below depends on it away from zero.
\<close>

fun nexp :: "number \<Rightarrow> number" where
  "nexp (Fin a) = rd (exp a)"
| "nexp PosInf = PosInf"
| "nexp NegInf = Fin 0"
| "nexp NaN = NaN"

text \<open>The operators on run-time values: \<open>a + b\<close>, \<open>a - b\<close>, \<open>a * b\<close>, \<open>a / b\<close>,
  \<open>a ** 2\<close> (taken as the correctly rounded square), \<open>a < b\<close>, \<open>a > b\<close>, \<open>a === b\<close>,
  \<open>a !== b\<close>.\<close>

definition jadd :: "jsval \<Rightarrow> jsval \<Rightarrow> jsval" where
  "jadd a b = N (nadd (toNumber a) (toNumber b))"

definition jsub :: "jsval \<Rightarrow> jsval \<Rightarrow> jsval" where
  "jsub a b = N (nsub (toNumber a) (toNumber b))"

definition jmul :: "jsval \<Rightarrow> jsval \<Rightarrow> jsval" where
  "jmul a b = N (nmul (toNumber a) (toNumber b))"

definition jdiv :: "jsval \<Rightarrow> jsval \<Rightarrow> jsval" where
  "jdiv a b = N (ndiv (toNumber a) (toNumber b))"

definition jsquare :: "jsval \<Rightarrow> jsval" where
  "jsquare a = N (nmul (toNumber a) (toNumber a))"

definition jlt :: "jsval \<Rightarrow> jsval \<Rightarrow> bool" where
  "jlt a b = nlt (toNumber a) (toNumber b)"

definition jgt :: "jsval \<Rightarrow> jsval \<Rightarrow> bool" where
  "jgt a b = nlt (toNumber b) (toNumber a)"

definition strict_eq :: "jsval \<Rightarrow> jsval \<Rightarrow> bool" where
  "strict_eq a b = (a = b \<and> a \<noteq> N NaN)"

definition strict_neq :: "jsval \<Rightarrow> jsval \<Rightarrow> bool" where
  "strict_neq a b = (\<not> strict_eq a b)"

text \<open>Reading \<open>xs[i]\<close>: past the end the result is \<open>undefined\<close>.\<close>

definition getidx :: "jsval list \<Rightarrow> nat \<Rightarrow> jsval" where
  "getidx xs i = (if i < length xs then xs ! i else Undefined)"

text \<open>
  Writing \<open>xs[i] = v\<close>: past the end the array grows. The slots in between are holes;
  they are modelled as \<open>undefined\<close>, which is what reading a hole gives.
\<close>

definition setidx :: "jsval list \<Rightarrow> nat \<Rightarrow> jsval \<Rightarrow> jsval list" where
  "setidx xs i v =
     (if i < length xs then xs[i := v]
      else xs @ replicate (i - length xs) Undefined @ [v])"

datatype error = AssertionError string | TypeError | Error string

text \<open>
  \<open>xs.reduce(f)\<close> without an initial value: a \<open>TypeError\<close> on the empty array,
  otherwise a left fold that starts from the first element.
\<close>

definition reduce :: "('a \<Rightarrow> 'a \<Rightarrow> 'a) \<Rightarrow> 'a list \<Rightarrow> error + 'a" where
  "reduce f xs = (case xs of [] \<Rightarrow> Inl TypeError | x # rest \<Rightarrow> Inr (foldl f x rest))"

text \<open>\<open>Array.from(xs.entries())\<close>: the pairs of index and element.\<close>

definition entries :: "'a list \<Rightarrow> (nat \<times> 'a) list" where
  "entries xs = zip [0..<length xs] xs"

section \<open>Matrix and vector utilities (matrix.ts)\<close>

text \<open>
  \<open>matrix.ts\<close> takes its \<open>assert\<close> from the module \<open>console\<close>: \<open>console.assert(c, msg)\<close>
  writes \<open>msg\<close> to the console when \<open>c\<close> is false and returns; it raises nothing. The
  functions of this file therefore return the lines written to the console together
  with their outcome.
\<close>

definition console_assert :: "bool \<Rightarrow> string \<Rightarrow> string list" where
  "console_assert c msg = (if c then [] else [msg])"

definition isRectangular :: "'a list list \<Rightarrow> bool" where
  "isRectangular matrix =
     (case map length matrix of [] \<Rightarrow> True | d0 # ds \<Rightarrow> list_all (\<lambda>dim. dim = d0) (d0 # ds))"

text \<open>The loop \<open>for (i = 0; i < row.length; i++) sum += row[i]*vector[i]\<close>, by recursion
  on the row; \<open>vector[i]\<close> past the end of \<open>vector\<close> is \<open>undefined\<close>.\<close>

fun row_sum :: "jsval list \<Rightarrow> jsval list \<Rightarrow> jsval \<Rightarrow> jsval" where
  "row_sum [] vector acc = acc"
| "row_sum (r # row) [] acc = row_sum row [] (jadd acc (jmul r Undefined))"
| "row_sum (r # row) (v # vector) acc = row_sum row vector (jadd acc (jmul r v))"

text \<open>\<open>matrix[0].length\<close> in the second assertion raises a \<open>TypeError\<close> on the empty matrix.\<close>

definition matVecMul :: "jsval list list \<Rightarrow> jsval list \<Rightarrow> string list \<times> (error + jsval list)" where
  "matVecMul matrix vector =
     (case matrix of
        [] \<Rightarrow> (console_assert (isRectangular matrix) ''Matrix must be rectangular!'', Inl TypeError)
      | row0 # rest \<Rightarrow>
          (console_assert (isRectangular matrix) ''Matrix must be rectangular!'' @
           console_assert (length row0 = length vector)
             ''Vector must be the same length as the 2nd dimension of matrix'',
           Inr (map (\<lambda>row. row_sum row vector (Num 0)) matrix)))"

text \<open>The callback \<open>(e1, e2) => f(e1, e2) ? e1 : e2\<close> of \<open>twoDimReduce\<close>.\<close>

definition pick :: "('a \<Rightarrow> 'a \<Rightarrow> bool) \<Rightarrow> 'a \<Rightarrow> 'a \<Rightarrow> 'a" where
  "pick f e1 e2 = (if f e1 e2 then e1 else e2)"

text \<open>\<open>xs.map(g)\<close> for a callback that can raise: the first error ends the map.\<close>

fun map_err :: "('a \<Rightarrow> error + 'b) \<Rightarrow> 'a list \<Rightarrow> error + 'b list" where
  "map_err g [] = Inr []"
| "map_err g (x # xs) =
     (case g x of
        Inl e \<Rightarrow> Inl e
      | Inr y \<Rightarrow> (case map_err g xs of Inl e \<Rightarrow> Inl e | Inr ys \<Rightarrow> Inr (y # ys)))"

definition twoDimReduce :: "'a list list \<Rightarrow> ('a \<Rightarrow> 'a \<Rightarrow> bool) \<Rightarrow> error + 'a" where
  "twoDimReduce matrix f =
     (case map_err (\<lambda>row. reduce (pick f) row) matrix of
        Inl e \<Rightarrow> Inl e
      | Inr extremes \<Rightarrow> reduce (pick f) extremes)"

text \<open>\<open>twoDimArray(n, m, def)\<close>: \<open>n\<close> rows, each a new array of \<open>m\<close> copies of \<open>def\<close>.\<close>

definition twoDimArray :: "nat \<Rightarrow> nat \<Rightarrow> jsval \<Rightarrow> jsval list list" where
  "twoDimArray n m def = replicate n (replicate m def)"

definition jsqrt :: "jsval \<Rightarrow> jsval" where
  "jsqrt a = N (nsqrt (toNumber a))"

text \<open>The loop of \<open>vectorDist\<close>: \<open>distSq += (v1[i] - v2[i])**2\<close> for \<open>i < v1.length\<close>.\<close>

fun distSq_loop :: "jsval list \<Rightarrow> jsval list \<Rightarrow> jsval \<Rightarrow> jsval" where
  "distSq_loop [] v2 distSq = distSq"
| "distSq_loop (x # v1) [] distSq =
     distSq_loop v1 [] (jadd distSq (jsquare (jsub x Undefined)))"
| "distSq_loop (x # v1) (y # v2) distSq =
     distSq_loop v1 v2 (jadd distSq (jsquare (jsub x y)))"

definition vectorDist :: "jsval list \<Rightarrow> jsval list \<Rightarrow> string list \<times> (error + jsval)" where
  "vectorDist v1 v2 =
     (console_assert (length v1 = length v2) ''v1 and v2 must be the same length'',
      Inr (jsqrt (distSq_loop v1 v2 (Num 0))))"

text \<open>One round of \<open>vector.forEach((v,i) => vectorMean[i] += v/vectors.length)\<close>, from
  index \<open>i\<close> on.\<close>

fun add_scaled :: "jsval list \<Rightarrow> nat \<Rightarrow> jsval \<Rightarrow> jsval list \<Rightarrow> jsval list" where
  "add_scaled [] i n vectorMean = vectorMean"
| "add_scaled (v # vector) i n vectorMean =
     add_scaled vector (Suc i) n (setidx vectorMean i (jadd (getidx vectorMean i) (jdiv v n)))"

text \<open>\<open>vectors[0].length\<close> raises a \<open>TypeError\<close> on the empty collection.\<close>

definition vectorMean :: "jsval list list \<Rightarrow> string list \<times> (error + jsval list)" where
  "vectorMean vectors =
     (console_assert (isRectangular vectors) ''Vectors must all have the same length!'',
      case vectors of
        [] \<Rightarrow> Inl TypeError
      | v0 # rest \<Rightarrow>
          Inr (foldl (\<lambda>vectorMean vector. add_scaled vector 0 (Num (real (length vectors))) vectorMean)
                 (replicate (length v0) (Num 0)) vectors))"

text \<open>The inner loop of \<open>isEqual\<close> on one pair of rows: true when \<open>return false\<close> is
  reached. \<open>m2[i][j]\<close> past the end of the row is \<open>undefined\<close>.\<close>

fun row_differs :: "jsval list \<Rightarrow> jsval list \<Rightarrow> bool" where
  "row_differs [] row2 = False"
| "row_differs (x # row1) [] = (strict_neq x Undefined \<or> row_differs row1 [])"
| "row_differs (x # row1) (y # row2) = (strict_neq x y \<or> row_differs row1 row2)"

text \<open>The outer loop of \<open>isEqual\<close>, over the rows of \<open>m1\<close>. Past the end of \<open>m2\<close> the
  row \<open>m2[i]\<close> is \<open>undefined\<close>, and reading \<open>m2[i][j]\<close> raises a \<open>TypeError\<close>; an empty
  row of \<open>m1\<close> reads nothing.\<close>

fun isEqual_loop :: "jsval list list \<Rightarrow> jsval list list \<Rightarrow> error + bool" where
  "isEqual_loop [] m2 = Inr True"
| "isEqual_loop (row1 # m1) [] = (if row1 = [] then isEqual_loop m1 [] else Inl TypeError)"
| "isEqual_loop (row1 # m1) (row2 # m2) =
     (if row_differs row1 row2 then Inr False else isEqual_loop m1 m2)"

text \<open>The second assertion is \<open>m2.every((v, i) => v.length = m2[i].length)\<close>: an
  assignment of the row's own length to itself, whose value is that length, true when
  it is not zero.\<close>

definition isEqual :: "jsval list list \<Rightarrow> jsval list list \<Rightarrow> string list \<times> (error + bool)" where
  "isEqual m1 m2 =
     (console_assert (length m1 = length m2) ''m1 and m2 should have the same length'' @
      console_assert (list_all (\<lambda>v. length v \<noteq> 0) m2) ''m1 and m2 should have same 2nd dimension'',
      isEqual_loop m1 m2)"

section \<open>The rated network (rated-network.ts)\<close>

text \<open>
  Modelled from the spec: the type \<open>Rating\<close> of \<open>rating.ts\<close>, which is not among the
  sources. A rating is a number or \<open>null\<close> (unrated); the sources compare ratings
  with \<open>null\<close> and cast numbers to \<open>Rating\<close>.
\<close>

type_synonym rating = "real option"

record rated_network =
  nNodes :: nat
  network :: "real list list"
  ratings :: "rating list"
  lower :: real
  upper :: real

text \<open>\<open>rated-network.ts\<close> imports \<open>assert\<close> from the module \<open>assert\<close>: a failed
  assertion raises an \<open>AssertionError\<close>.\<close>

definition RatedNetwork ::
  "real list list \<Rightarrow> rating list \<Rightarrow> real option \<Rightarrow> real option \<Rightarrow> error + rated_network" where
  "RatedNetwork network0 ratings0 lower0 upper0 =
     (let nRows = length network0;
          nCols = map length network0;
          sameColLengths = (case nCols of [] \<Rightarrow> True | c0 # cs \<Rightarrow> list_all (\<lambda>colLength. colLength = c0) nCols)
      in if \<not> sameColLengths then Inl (AssertionError ''Ragged columns!'')
         else if \<not> (case nCols of [] \<Rightarrow> False | c0 # cs \<Rightarrow> c0 = nRows)
           then Inl (AssertionError ''Adjacency matrix has invalid shape'')
         else if length ratings0 \<noteq> nRows
           then Inl (AssertionError ''rating and network must have compatible size'')
         else
           (case (case lower0 of
                    Some l \<Rightarrow> Inr l
                  | None \<Rightarrow> (case twoDimReduce network0 (\<lambda>e1 e2. e1 < e2) of
                               Inl e \<Rightarrow> Inl e
                             | Inr m \<Rightarrow> Inr (of_int \<lfloor>m\<rfloor>))) of
              Inl e \<Rightarrow> Inl e
            | Inr l \<Rightarrow>
               (case (case upper0 of
                        Some u \<Rightarrow> Inr u
                      | None \<Rightarrow> (case twoDimReduce network0 (\<lambda>e1 e2. e1 > e2) of
                                   Inl e \<Rightarrow> Inl e
                                 | Inr m \<Rightarrow> Inr (of_int \<lceil>m\<rceil>))) of
                  Inl e \<Rightarrow> Inl e
                | Inr u \<Rightarrow>
                   if \<not> l < u then Inl (AssertionError ''lower must be smaller than upper'')
                   else Inr \<lparr>nNodes = nRows, network = network0, ratings = ratings0,
                             lower = l, upper = u\<rparr>)))"

definition hasRating :: "rated_network \<Rightarrow> bool" where
  "hasRating rn = (\<not> list_all (\<lambda>r. r = None) (ratings rn))"

definition hasUnrated :: "rated_network \<Rightarrow> bool" where
  "hasUnrated rn = (\<not> list_all (\<lambda>r. r \<noteq> None) (ratings rn))"

text \<open>\<open>addRating\<close> overwrites \<open>ratings[nodeIndex]\<close> in place; the model returns the
  updated object. The index is checked against \<open>nNodes\<close> first, so the write is inside
  the array of every network that satisfies the constructor's invariant. (Past the end
  the array would grow; the slots in between are written as unrated here.)\<close>

definition addRating :: "rated_network \<Rightarrow> int \<Rightarrow> rating \<Rightarrow> error + rated_network" where
  "addRating rn nodeIndex rating =
     (if \<not> (nodeIndex \<ge> 0 \<and> nodeIndex < int (nNodes rn))
      then Inl (AssertionError ''nodeIndex must be between 0 and nNodes'')
      else Inr (rn\<lparr>ratings :=
                   (if nat nodeIndex < length (ratings rn)
                    then (ratings rn)[nat nodeIndex := rating]
                    else ratings rn @ replicate (nat nodeIndex - length (ratings rn)) None @ [rating])\<rparr>))"

section \<open>Recommendation algorithms (recommendation-algorithm.ts)\<close>

record recommendation_algorithm =
  ratingRescaleFactor :: real
  unratedStarRating :: real

definition ratingRescaleFactorDefault :: real where
  "ratingRescaleFactorDefault = 5 / 2"

definition unratedStarRatingDefault :: real where
  "unratedStarRatingDefault = 5 / 2"

definition default_algorithm :: recommendation_algorithm where
  "default_algorithm =
     \<lparr>ratingRescaleFactor = ratingRescaleFactorDefault,
      unratedStarRating = unratedStarRatingDefault\<rparr>"

text \<open>
  \<open>getRecommendationVector\<close> works on a deep copy of its argument and builds every
  intermediate array with \<open>map\<close>. The similarity matrix is \<open>rnet.network\<close>
  (\<open>rnet.profile.similarityNetwork\<close> in the later revision, the same matrix), the
  product is \<open>matVecMul\<close> (renamed \<open>matrixVectorMultiplication\<close> later). The console
  output of the multiplication is dropped.
\<close>

definition getRecommendationVector ::
  "recommendation_algorithm \<Rightarrow> rated_network \<Rightarrow> error + jsval list" where
  "getRecommendationVector alg rnet =
     (let networkRescaleFactor = jdiv (jsub (Num (upper rnet)) (Num (lower rnet))) (Num 2);
          rescaledNetwork =
            map (\<lambda>row. map (\<lambda>elem. jsub (Num elem) networkRescaleFactor) row) (network rnet);
          rescaledRatings0 =
            map (\<lambda>e. case e of None \<Rightarrow> Num (unratedStarRating alg) | Some r \<Rightarrow> Num r) (ratings rnet);
          rescaledRatings = map (\<lambda>e. jsub e (Num (ratingRescaleFactor alg))) rescaledRatings0
      in snd (matVecMul rescaledNetwork rescaledRatings))"

text \<open>The \<open>forEach\<close> of the greedy algorithm: every rated index gets the score
  \<open>minVal - 1\<close>.\<close>

definition remove_rated :: "jsval \<Rightarrow> rating list \<Rightarrow> jsval list \<Rightarrow> jsval list" where
  "remove_rated minVal rs recommendVector =
     foldl (\<lambda>rv (i, r). if r \<noteq> None then setidx rv i (jsub minVal (Num 1)) else rv)
       recommendVector (entries rs)"

text \<open>The recommendation vector of the greedy algorithm after the \<open>forEach\<close>.\<close>

definition greedy_scores :: "recommendation_algorithm \<Rightarrow> rated_network \<Rightarrow> error + jsval list" where
  "greedy_scores alg rnet =
     (case getRecommendationVector alg rnet of
        Inl e \<Rightarrow> Inl e
      | Inr recommendVector \<Rightarrow>
         (case reduce (\<lambda>e1 e2. if jlt e1 e2 then e1 else e2) recommendVector of
            Inl e \<Rightarrow> Inl e
          | Inr minVal \<Rightarrow> Inr (remove_rated minVal (ratings rnet) recommendVector)))"

definition greedy_recommend :: "recommendation_algorithm \<Rightarrow> rated_network \<Rightarrow> error + nat" where
  "greedy_recommend alg rnet =
     (case greedy_scores alg rnet of
        Inl e \<Rightarrow> Inl e
      | Inr recommendVector \<Rightarrow>
         (case reduce (\<lambda>(i1, e1) (i2, e2). if jgt e1 e2 then (i1, e1) else (i2, e2))
                 (entries recommendVector) of
            Inl e \<Rightarrow> Inl e
          | Inr recommendation \<Rightarrow> Inr (fst recommendation)))"

text \<open>The invariant that the constructor establishes and \<open>addRating\<close> keeps: an
  \<open>N \<times> N\<close> matrix with \<open>N \<ge> 1\<close>, \<open>N\<close> ratings, and \<open>lower < upper\<close>.\<close>

definition rated_network_inv :: "rated_network \<Rightarrow> bool" where
  "rated_network_inv rn =
     (0 < nNodes rn \<and> length (network rn) = nNodes rn \<and>
      list_all (\<lambda>row. length row = nNodes rn) (network rn) \<and>
      length (ratings rn) = nNodes rn \<and> lower rn < upper rn)"

text \<open>A value that arithmetic and comparisons do not read as NaN.\<close>

definition not_nan :: "jsval \<Rightarrow> bool" where
  "not_nan v = (toNumber v \<noteq> NaN)"

text \<open>\<open>i\<close> is the last index at which the computed scores \<open>sc\<close> are maximal under the
  comparison \<open>>\<close> of the code: no score is greater, every later one is smaller.\<close>

definition last_max_of :: "jsval list \<Rightarrow> nat \<Rightarrow> bool" where
  "last_max_of sc i =
     (i < length sc \<and> list_all (\<lambda>s. \<not> jgt s (sc ! i)) sc \<and>
      list_all (\<lambda>s. jgt (sc ! i) s) (drop (Suc i) sc))"

text \<open>\<open>i\<close> is the first index at which the finite scores \<open>sc\<close> are maximal.\<close>

definition is_first_max :: "real list \<Rightarrow> nat \<Rightarrow> bool" where
  "is_first_max sc i =
     (i < length sc \<and> list_all (\<lambda>s. s \<le> sc ! i) sc \<and> list_all (\<lambda>s. s < sc ! i) (take i sc))"

section \<open>Profile learners (profile-learner.ts)\<close>

text \<open>
  Modelled from the spec: the class \<open>UserProfile\<close> of \<open>user-profile.ts\<close>, which is not
  among the sources. A profile holds one similarity network.
\<close>

record user_profile =
  similarityNetwork :: "jsval list list"

record user =
  ratedNetwork :: rated_network

text \<open>The learner's only field is its similarity function; the default is
  \<open>Math.exp(-0.1*(r1-r2)**2)\<close>, where \<open>0.1\<close> is the double nearest to one tenth.\<close>

record profile_learner =
  similarityFunction :: "jsval \<Rightarrow> jsval \<Rightarrow> jsval"

definition default_similarityFunction :: "jsval \<Rightarrow> jsval \<Rightarrow> jsval" where
  "default_similarityFunction r1 r2 =
     N (nexp (nmul (nneg (rd (1 / 10))) (toNumber (jsquare (jsub r1 r2)))))"

definition default_learner :: profile_learner where
  "default_learner = \<lparr>similarityFunction = default_similarityFunction\<rparr>"

text \<open>\<open>similarity[i][j] = v\<close>. The row index is always one of the rows that
  \<open>twoDimArray\<close> has just created.\<close>

definition set2 :: "jsval list list \<Rightarrow> nat \<Rightarrow> nat \<Rightarrow> jsval \<Rightarrow> jsval list list" where
  "set2 m i j v = (if i < length m then m[i := setidx (m ! i) j v] else m)"

definition meanVectorsToSimilarityMatrix :: "profile_learner \<Rightarrow> jsval list \<Rightarrow> jsval list list" where
  "meanVectorsToSimilarityMatrix learner meanVector =
     (let nNodes = length meanVector;
          similarity = twoDimArray nNodes nNodes (Num 0)
      in fold (\<lambda>i similarity.
                 fold (\<lambda>j similarity.
                         let simVal = similarityFunction learner (getidx meanVector i) (getidx meanVector j)
                         in set2 (set2 similarity i j simVal) j i simVal)
                      [i + 1..<nNodes] similarity)
              [0..<nNodes - 1] similarity)"

text \<open>What the callback \<open>(r) => (r===null) ? 0 : r\<close> of \<open>cleanRatings\<close> returns: the
  number \<open>0\<close> or the array it was given.\<close>

datatype cleaned = CNum real | CRow "rating list"

text \<open>
  \<open>cleanRatings\<close> maps the callback over \<open>users.map((u) => u.ratedNetwork.ratings)\<close>,
  the list of the users' rating arrays. Each element is a reference to an array, never
  \<open>null\<close>: the option type stands for the reference, \<open>None\<close> for \<open>null\<close>.
\<close>

definition cleanRatings :: "user list \<Rightarrow> cleaned list" where
  "cleanRatings users =
     (let ratings0 = map (\<lambda>u. Some (ratings (ratedNetwork u))) users
      in map (\<lambda>r. case r of None \<Rightarrow> CNum 0 | Some row \<Rightarrow> CRow row) ratings0)"

text \<open>The value of a rating inside an array.\<close>

fun rating_val :: "rating \<Rightarrow> jsval" where
  "rating_val None = Null"
| "rating_val (Some r) = Num r"

text \<open>The cast \<open><number[][]>\<close> changes nothing at run time: the rows keep their
  \<open>null\<close> entries. A number in the place of a row has no elements.\<close>

fun as_rows :: "cleaned \<Rightarrow> jsval list" where
  "as_rows (CRow row) = map rating_val row"
| "as_rows (CNum x) = []"

text \<open>\<open>profile-learner.ts\<close> imports \<open>assert\<close> from the module \<open>assert\<close>: its own
  assertions raise. The console output of the utilities it calls is dropped.\<close>

definition assign_cluster :: "jsval list \<Rightarrow> jsval list list \<Rightarrow> error + nat" where
  "assign_cluster point currentMeans =
     (case map_err (\<lambda>v. snd (vectorDist point v)) currentMeans of
        Inl e \<Rightarrow> Inl e
      | Inr distances \<Rightarrow>
         (case reduce (\<lambda>(i1, d1) (i2, d2). if jlt d1 d2 then (i1, d1) else (i2, d2))
                 (entries distances) of
            Inl e \<Rightarrow> Inl e
          | Inr closest \<Rightarrow> Inr (fst closest)))"

definition kMeansIteration :: "jsval list list \<Rightarrow> jsval list list \<Rightarrow> error + jsval list list" where
  "kMeansIteration ratings0 currentMeans =
     (if \<not> isRectangular ratings0 then Inl (AssertionError ''ratings must be rectangular!'')
      else if \<not> isRectangular currentMeans then Inl (AssertionError ''currentMeans must be rectangular!'')
      else
        (let k = length currentMeans
         in case ratings0 of
              [] \<Rightarrow> Inl TypeError
            | r0 # rest \<Rightarrow>
               (case map_err (\<lambda>point. case assign_cluster point currentMeans of
                                         Inl e \<Rightarrow> Inl e
                                       | Inr idx \<Rightarrow> Inr (idx, point)) ratings0 of
                  Inl e \<Rightarrow> Inl e
                | Inr pointAssignments \<Rightarrow>
                   map_err (\<lambda>i. snd (vectorMean (map snd (filter (\<lambda>p. fst p = i) pointAssignments))))
                     [0..<k])))"

text \<open>
  \<open>initKMeans\<close> draws indices with \<open>Math.floor(Math.random()*nUsers)\<close> until it has \<open>k\<close>
  different ones. The successive values of \<open>Math.random()\<close> are a parameter of the
  model; when they run out before \<open>k\<close> indices are found, there is no result. A draw
  is a double in \<open>[0, 1)\<close>, so the rounded product is finite and not negative.
\<close>

fun floor_index :: "number \<Rightarrow> nat" where
  "floor_index (Fin p) = nat \<lfloor>p\<rfloor>"
| "floor_index v = 0"

fun draw_fresh :: "nat list \<Rightarrow> nat \<Rightarrow> real list \<Rightarrow> (nat \<times> real list) option" where
  "draw_fresh startIdx nUsers [] = None"
| "draw_fresh startIdx nUsers (u # us) =
     (let candidateIdx = floor_index (rd (u * real nUsers))
      in if candidateIdx \<in> set startIdx then draw_fresh startIdx nUsers us
         else Some (candidateIdx, us))"

fun draw_start :: "nat \<Rightarrow> nat list \<Rightarrow> nat \<Rightarrow> real list \<Rightarrow> nat list option" where
  "draw_start 0 startIdx nUsers us = Some startIdx"
| "draw_start (Suc n) startIdx nUsers us =
     (case draw_fresh startIdx nUsers us of
        None \<Rightarrow> None
      | Some (candidateIdx, us') \<Rightarrow> draw_start n (startIdx @ [candidateIdx]) nUsers us')"

text \<open>\<open>Math.random()\<close> is below 1, so a drawn index is below \<open>nUsers\<close>; an index
  outside the array would give an \<open>undefined\<close> mean, on which the first distance
  computation raises a \<open>TypeError\<close>.\<close>

definition initKMeans :: "jsval list list \<Rightarrow> int \<Rightarrow> real list \<Rightarrow> (error + jsval list list) option" where
  "initKMeans ratings0 k us =
     (if \<not> k \<ge> 1 then Some (Inl (AssertionError ''k must be >= 1''))
      else if \<not> isRectangular ratings0 then Some (Inl (AssertionError ''ratings must be rectangular''))
      else if ratings0 = [] then Some (Inl TypeError)
      else
        (case draw_start (nat k) [] (length ratings0) us of
           None \<Rightarrow> None
         | Some startIdx \<Rightarrow>
            Some (map_err (\<lambda>i. if i < length ratings0 then Inr (ratings0 ! i) else Inl TypeError)
                    startIdx)))"

text \<open>The loop \<open>while (!isEqual(currentMeans, previousMeans))\<close> of \<open>runKMeans\<close>. Nothing in
  the code bounds the number of rounds: a run that does not end has no result.\<close>

partial_function (option) kMeans_loop ::
  "jsval list list \<Rightarrow> jsval list list \<Rightarrow> jsval list list \<Rightarrow> (error + jsval list list) option" where
  "kMeans_loop ratings0 currentMeans previousMeans =
     (case snd (isEqual currentMeans previousMeans) of
        Inl e \<Rightarrow> Some (Inl e)
      | Inr eq \<Rightarrow>
         if eq then Some (Inr currentMeans)
         else (case kMeansIteration ratings0 currentMeans of
                 Inl e \<Rightarrow> Some (Inl e)
               | Inr newMeans \<Rightarrow> kMeans_loop ratings0 newMeans currentMeans))"

text \<open>\<open>twoDimArray(k, nNodes)\<close> without a default fills the previous means with
  \<open>undefined\<close>.\<close>

definition runKMeans ::
  "jsval list list \<Rightarrow> jsval list list \<Rightarrow> int \<Rightarrow> (error + jsval list list) option" where
  "runKMeans initMeans ratings0 k =
     (if \<not> k \<ge> 1 then Some (Inl (AssertionError ''k must be >= 1''))
      else if \<not> isRectangular ratings0 then Some (Inl (AssertionError ''ratings must be rectangular''))
      else if \<not> isRectangular initMeans then Some (Inl (AssertionError ''initMeans must be rectangular''))
      else
        (case ratings0 of
           [] \<Rightarrow> Some (Inl TypeError)
         | r0 # rest \<Rightarrow>
            kMeans_loop ratings0 initMeans (twoDimArray (nat k) (length r0) Undefined)))"

text \<open>\<open>KMeansLearner.learnProfile(users, parameters)\<close>. The parameter object is modelled
  by its field \<open>k\<close>: \<open>None\<close> when the object has no such field.\<close>

definition kmeans_learnProfile ::
  "profile_learner \<Rightarrow> user list \<Rightarrow> int option \<Rightarrow> real list \<Rightarrow> (error + user_profile list) option" where
  "kmeans_learnProfile learner users parameters us =
     (case parameters of
        None \<Rightarrow> Some (Inl (Error ''Learing of k not yet implemented.''))
      | Some k \<Rightarrow>
         (case users of
            [] \<Rightarrow> Some (Inl TypeError)
          | u0 # rest \<Rightarrow>
             (let nNodes0 = nNodes (ratedNetwork u0);
                  nUsers = length users
              in if \<not> k \<ge> 1 then Some (Inl (AssertionError ''k must be >= 1''))
                 else if \<not> int nUsers \<ge> k then Some (Inl (AssertionError ''nUsers must be >= k''))
                 else if \<not> list_all (\<lambda>n. n = nNodes0) (map (\<lambda>u. nNodes (ratedNetwork u)) users)
                   then Some (Inl (AssertionError ''Users should all have the same shape ratedNetwork''))
                 else
                   (let ratings0 = map as_rows (cleanRatings users)
                    in case initKMeans ratings0 k us of
                         None \<Rightarrow> None
                       | Some (Inl e) \<Rightarrow> Some (Inl e)
                       | Some (Inr initMeans) \<Rightarrow>
                          (case runKMeans initMeans ratings0 k of
                             None \<Rightarrow> None
                           | Some (Inl e) \<Rightarrow> Some (Inl e)
                           | Some (Inr finalMeans) \<Rightarrow>
                              Some (Inr (map (\<lambda>v. \<lparr>similarityNetwork =
                                                    meanVectorsToSimilarityMatrix learner v\<rparr>)
                                          finalMeans)))))))"

text \<open>\<open>AverageLearner.learnProfile(users)\<close>.\<close>

definition average_learnProfile :: "profile_learner \<Rightarrow> user list \<Rightarrow> error + user_profile list" where
  "average_learnProfile learner users =
     (case users of
        [] \<Rightarrow> Inl TypeError
      | u0 # rest \<Rightarrow>
         (let nNodes0 = nNodes (ratedNetwork u0)
          in if \<not> list_all (\<lambda>u. nNodes (ratedNetwork u) = nNodes0) users
             then Inl (AssertionError ''Users should all have the same shape ratedNetwork'')
             else
               (case snd (vectorMean (map as_rows (cleanRatings users))) of
                  Inl e \<Rightarrow> Inl e
                | Inr averageRating \<Rightarrow>
                   Inr [\<lparr>similarityNetwork = meanVectorsToSimilarityMatrix learner averageRating\<rparr>])))"

section \<open>Auxiliary notions for the proofs\<close>

text \<open>The scores of the greedy algorithm after its \<open>forEach\<close>, when the scores before
  it are \<open>rv\<close> and the first \<open>reduce\<close> has returned \<open>m\<close>.\<close>

definition removed :: "jsval \<Rightarrow> rating list \<Rightarrow> jsval list \<Rightarrow> jsval list" where
  "removed m rs rv =
     map (\<lambda>(i, v). if i < length rs \<and> rs ! i \<noteq> None then jsub m (Num 1) else v) (entries rv)"

text \<open>A cleaned rating and a cluster mean hold finite numbers and, since
  \<open>cleanRatings\<close> keeps them, \<open>null\<close> entries; arithmetic reads \<open>null\<close> as 0.\<close>

fun numeric :: "jsval \<Rightarrow> bool" where
  "numeric (N (Fin r)) = True"
| "numeric Null = True"
| "numeric v = False"

fun to_real :: "jsval \<Rightarrow> real" where
  "to_real (N (Fin r)) = r"
| "to_real v = 0"

text \<open>A rating that the code can hold: a finite double or \<open>null\<close>.\<close>

fun double_or_null :: "jsval \<Rightarrow> bool" where
  "double_or_null (N (Fin r)) = (\<bar>r\<bar> \<le> max_double)"
| "double_or_null Null = True"
| "double_or_null v = False"

text \<open>Anything but NaN and \<open>undefined\<close>: a cluster mean can also hold an infinity,
  when a sum has overflowed.\<close>

fun numeric_or_inf :: "jsval \<Rightarrow> bool" where
  "numeric_or_inf (N NaN) = False"
| "numeric_or_inf Undefined = False"
| "numeric_or_inf v = True"

text \<open>A distance that \<open>vectorDist\<close> can return on such vectors: a finite number that is
  not negative, or \<open>Infinity\<close>.\<close>

fun is_distance :: "jsval \<Rightarrow> bool" where
  "is_distance (N (Fin a)) = (0 \<le> a)"
| "is_distance (N PosInf) = True"
| "is_distance v = False"

text \<open>The Euclidean distance between two vectors of reals, as the specification means
  it.\<close>

definition euclidean_distance :: "real list \<Rightarrow> real list \<Rightarrow> real" where
  "euclidean_distance xs ys = sqrt (\<Sum>(x, y)\<leftarrow>zip xs ys. (x - y)\<^sup>2)"

text \<open>\<open>i\<close> is the last index at which the computed distances \<open>ds\<close> are minimal under the
  comparison \<open><\<close> of the code: no distance is smaller, every later one is greater.\<close>

definition last_min_of :: "jsval list \<Rightarrow> nat \<Rightarrow> bool" where
  "last_min_of ds i =
     (i < length ds \<and> list_all (\<lambda>d. \<not> jlt d (ds ! i)) ds \<and>
      list_all (\<lambda>d. jlt (ds ! i) d) (drop (Suc i) ds))"

text \<open>\<open>i\<close> is the first index at which the finite distances \<open>ds\<close> are minimal.\<close>

definition is_first_min :: "real list \<Rightarrow> nat \<Rightarrow> bool" where
  "is_first_min ds i =
     (i < length ds \<and> list_all (\<lambda>d. ds ! i \<le> d) ds \<and> list_all (\<lambda>d. ds ! i < d) (take i ds))"

text \<open>A square matrix that is symmetric and has the number 0 on its diagonal.\<close>

definition symmetric_zero_diag :: "jsval list list \<Rightarrow> bool" where
  "symmetric_zero_diag M =
     (list_all (\<lambda>row. length row = length M) M \<and>
      list_all (\<lambda>i. M ! i ! i = Num 0 \<and> list_all (\<lambda>j. M ! i ! j = M ! j ! i) [0..<length M])
        [0..<length M])"

text \<open>The invariant of the loops of \<open>meanVectorsToSimilarityMatrix\<close>: an \<open>n \<times> n\<close> matrix,
  symmetric, with the number 0 on its diagonal.\<close>

definition sim_inv :: "nat \<Rightarrow> jsval list list \<Rightarrow> bool" where
  "sim_inv n M =
     (length M = n \<and> (\<forall>row\<in>set M. length row = n) \<and>
      (\<forall>i<n. \<forall>j<n. M ! i ! j = M ! j ! i) \<and> (\<forall>i<n. M ! i ! i = Num 0))"

section \<open>The recommendation algorithms on a heap\<close>

text \<open>
  \<open>recommend\<close> receives a reference to a \<open>RatedNetwork\<close> object, whose matrix and
  ratings are arrays that the caller still holds. To say what a call leaves unchanged,
  the two algorithms are modelled a second time on a heap of objects: an address is an
  index into the heap, every array that the code creates (\<open>cloneDeep\<close>, \<open>map\<close>,
  \<open>Array.from\<close>, \<open>Array(n).fill\<close>, \<open>[]\<close>) is allocated at the end of the heap, and every
  assignment to an element, \<open>sort\<close> and \<open>push\<close> is a write to the object at an address.
  The pairs \<open>[i, e]\<close> inside an array of entries are values. An address that does not
  hold an object of the expected class reads as an empty array.
\<close>

type_synonym addr = nat

record rated_network_obj =
  obj_nNodes :: nat
  obj_network :: addr
  obj_ratings :: addr
  obj_lower :: real
  obj_upper :: real

datatype obj =
    NumArray "jsval list"
  | RefArray "addr list"
  | PairArray "(nat \<times> jsval) list"
  | RatedNetworkObj rated_network_obj

type_synonym heap = "obj list"

definition alloc :: "heap \<Rightarrow> obj \<Rightarrow> heap \<times> addr" where
  "alloc h ob = (h @ [ob], length h)"

definition store :: "heap \<Rightarrow> addr \<Rightarrow> obj \<Rightarrow> heap" where
  "store h a ob = (if a < length h then h[a := ob] else h)"

definition nums_at :: "heap \<Rightarrow> addr \<Rightarrow> jsval list" where
  "nums_at h a = (if a < length h then (case h ! a of NumArray xs \<Rightarrow> xs | _ \<Rightarrow> []) else [])"

definition refs_at :: "heap \<Rightarrow> addr \<Rightarrow> addr list" where
  "refs_at h a = (if a < length h then (case h ! a of RefArray xs \<Rightarrow> xs | _ \<Rightarrow> []) else [])"

definition pairs_at :: "heap \<Rightarrow> addr \<Rightarrow> (nat \<times> jsval) list" where
  "pairs_at h a = (if a < length h then (case h ! a of PairArray xs \<Rightarrow> xs | _ \<Rightarrow> []) else [])"

definition rated_network_at :: "heap \<Rightarrow> addr \<Rightarrow> rated_network_obj option" where
  "rated_network_at h a =
     (if a < length h then (case h ! a of RatedNetworkObj r \<Rightarrow> Some r | _ \<Rightarrow> None) else None)"

definition matrix_at :: "heap \<Rightarrow> addr \<Rightarrow> jsval list list" where
  "matrix_at h a = map (nums_at h) (refs_at h a)"

fun alloc_rows :: "heap \<Rightarrow> jsval list list \<Rightarrow> heap \<times> addr list" where
  "alloc_rows h [] = (h, [])"
| "alloc_rows h (row # rows) =
     (let (h1, a) = alloc h (NumArray row);
          (h2, as) = alloc_rows h1 rows
      in (h2, a # as))"

definition alloc_matrix :: "heap \<Rightarrow> jsval list list \<Rightarrow> heap \<times> addr" where
  "alloc_matrix h rows = (let (h1, as) = alloc_rows h rows in alloc h1 (RefArray as))"

text \<open>\<open>cloneDeep\<close> copies the rows, the matrix, the ratings and the object.\<close>

definition cloneDeep :: "heap \<Rightarrow> rated_network_obj \<Rightarrow> heap \<times> addr" where
  "cloneDeep h r =
     (let (h1, network') = alloc_matrix h (matrix_at h (obj_network r));
          (h2, ratings') = alloc h1 (NumArray (nums_at h (obj_ratings r)))
      in alloc h2 (RatedNetworkObj (r\<lparr>obj_network := network', obj_ratings := ratings'\<rparr>)))"

definition getRecommendationVector_h ::
  "recommendation_algorithm \<Rightarrow> heap \<Rightarrow> addr \<Rightarrow> heap \<times> (error + addr)" where
  "getRecommendationVector_h alg h a =
     (case rated_network_at h a of
        None \<Rightarrow> (h, Inl TypeError)
      | Some r0 \<Rightarrow>
         (let (h1, c) = cloneDeep h r0
          in case rated_network_at h1 c of
               None \<Rightarrow> (h1, Inl TypeError)
             | Some rnet \<Rightarrow>
                (let networkRescaleFactor =
                        jdiv (jsub (Num (obj_upper rnet)) (Num (obj_lower rnet))) (Num 2);
                     (h2, rescaledNetwork) =
                        alloc_matrix h1
                          (map (\<lambda>row. map (\<lambda>elem. jsub elem networkRescaleFactor) row)
                             (matrix_at h1 (obj_network rnet)));
                     (h3, rescaledRatings0) =
                        alloc h2 (NumArray (map (\<lambda>e. if e = Null then Num (unratedStarRating alg) else e)
                                              (nums_at h2 (obj_ratings rnet))));
                     (h4, rescaledRatings) =
                        alloc h3 (NumArray (map (\<lambda>e. jsub e (Num (ratingRescaleFactor alg)))
                                              (nums_at h3 rescaledRatings0)))
                 in case snd (matVecMul (matrix_at h4 rescaledNetwork) (nums_at h4 rescaledRatings)) of
                      Inl e \<Rightarrow> (h4, Inl e)
                    | Inr v \<Rightarrow> (let (h5, recommendVector) = alloc h4 (NumArray v)
                               in (h5, Inr recommendVector)))))"

text \<open>\<open>xs[i] = v\<close> for the array at address \<open>a\<close>.\<close>

definition write_idx :: "heap \<Rightarrow> addr \<Rightarrow> nat \<Rightarrow> jsval \<Rightarrow> heap" where
  "write_idx h a i v = store h a (NumArray (setidx (nums_at h a) i v))"

text \<open>The \<open>forEach\<close> of the greedy algorithm, writing into the array at
  \<open>recommendVector\<close>.\<close>

definition remove_rated_h :: "heap \<Rightarrow> addr \<Rightarrow> jsval \<Rightarrow> (nat \<times> jsval) list \<Rightarrow> heap" where
  "remove_rated_h h recommendVector minVal ratingEntries =
     foldl (\<lambda>h (i, r). if r \<noteq> Null then write_idx h recommendVector i (jsub minVal (Num 1)) else h)
       h ratingEntries"

definition greedy_recommend_h ::
  "recommendation_algorithm \<Rightarrow> heap \<Rightarrow> addr \<Rightarrow> heap \<times> (error + nat)" where
  "greedy_recommend_h alg h a =
     (case getRecommendationVector_h alg h a of
        (h1, Inl e) \<Rightarrow> (h1, Inl e)
      | (h1, Inr recommendVector) \<Rightarrow>
         (case reduce (\<lambda>e1 e2. if jlt e1 e2 then e1 else e2) (nums_at h1 recommendVector) of
            Inl e \<Rightarrow> (h1, Inl e)
          | Inr minVal \<Rightarrow>
             (case rated_network_at h1 a of
                None \<Rightarrow> (h1, Inl TypeError)
              | Some rnet \<Rightarrow>
                 (let (h2, ratingEntries) =
                         alloc h1 (PairArray (entries (nums_at h1 (obj_ratings rnet))));
                      h3 = remove_rated_h h2 recommendVector minVal (pairs_at h2 ratingEntries);
                      (h4, scoreEntries) = alloc h3 (PairArray (entries (nums_at h3 recommendVector)))
                  in case reduce (\<lambda>(i1, e1) (i2, e2). if jgt e1 e2 then (i1, e1) else (i2, e2))
                            (pairs_at h4 scoreEntries) of
                       Inl e \<Rightarrow> (h4, Inl e)
                     | Inr recommendation \<Rightarrow> (h4, Inr (fst recommendation))))))"

text \<open>The comparator \<open>([i1,r1], [i2,r2]) => r1-r2\<close> is positive: the first pair goes after
  the second.\<close>

definition goes_after :: "nat \<times> jsval \<Rightarrow> nat \<times> jsval \<Rightarrow> bool" where
  "goes_after p1 p2 = jgt (jsub (snd p1) (snd p2)) (Num 0)"

text \<open>\<open>sort\<close> is stable; it is modelled by insertion. For a comparator that is not an
  ordering (differences that are NaN) the language leaves the order open.\<close>

fun insert_sorted :: "nat \<times> jsval \<Rightarrow> (nat \<times> jsval) list \<Rightarrow> (nat \<times> jsval) list" where
  "insert_sorted p [] = [p]"
| "insert_sorted p (q # qs) = (if goes_after q p then p # q # qs else q # insert_sorted p qs)"

definition sort_pairs :: "(nat \<times> jsval) list \<Rightarrow> (nat \<times> jsval) list" where
  "sort_pairs ps = foldl (\<lambda>sorted p. insert_sorted p sorted) [] ps"

text \<open>The loop \<open>for (let [i, cp] of cdist) if (u < cp) return i\<close>, and the \<open>throw\<close> after
  it.\<close>

fun sample :: "jsval \<Rightarrow> (nat \<times> jsval) list \<Rightarrow> error + nat" where
  "sample u [] = Inl (Error ''The cumulative distribution is invalid.'')"
| "sample u ((i, cp) # cdist) = (if jlt u cp then Inr i else sample u cdist)"

text \<open>The \<open>forEach\<close> of the probabilistic algorithm: the score of every rated item
  becomes 0.\<close>

definition zero_rated_h :: "heap \<Rightarrow> addr \<Rightarrow> (nat \<times> jsval) list \<Rightarrow> heap" where
  "zero_rated_h h recommendVector ratingEntries =
     foldl (\<lambda>h (i, r). if r \<noteq> Null then write_idx h recommendVector i (Num 0) else h)
       h ratingEntries"

text \<open>The distribution: uniform when all scores are equal, the scores divided by their
  sum otherwise.\<close>

definition normalize_scores :: "jsval list \<Rightarrow> error + jsval list" where
  "normalize_scores scores =
     (if list_all (\<lambda>e. strict_eq e (getidx scores 0)) scores
      then Inr (replicate (length scores) (jdiv (Num 1) (Num (real (length scores)))))
      else (case reduce jadd scores of
              Inl e \<Rightarrow> Inl e
            | Inr s \<Rightarrow> Inr (map (\<lambda>e. jdiv e s) scores)))"

text \<open>The loop that pushes the running sums onto the array at \<open>cdist\<close>.\<close>

definition accumulate_h :: "heap \<Rightarrow> addr \<Rightarrow> (nat \<times> jsval) list \<Rightarrow> heap" where
  "accumulate_h h cdist distribution =
     fst (foldl (\<lambda>(h, prev) (i, p).
                   (store h cdist (PairArray (pairs_at h cdist @ [(i, jadd p prev)])), jadd prev p))
            (h, Num 0) distribution)"

definition probabilistic_recommend_h ::
  "recommendation_algorithm \<Rightarrow> heap \<Rightarrow> addr \<Rightarrow> real \<Rightarrow> heap \<times> (error + nat)" where
  "probabilistic_recommend_h alg h a u =
     (case getRecommendationVector_h alg h a of
        (h1, Inl e) \<Rightarrow> (h1, Inl e)
      | (h1, Inr recommendVector0) \<Rightarrow>
         (case rated_network_at h1 a of
            None \<Rightarrow> (h1, Inl TypeError)
          | Some rnet \<Rightarrow>
             (let h2 = zero_rated_h h1 recommendVector0 (entries (nums_at h1 (obj_ratings rnet)))
              in case normalize_scores (nums_at h2 recommendVector0) of
                   Inl e \<Rightarrow> (h2, Inl e)
                 | Inr probabilities \<Rightarrow>
                    (let (h3, recommendVector) = alloc h2 (NumArray probabilities);
                         (h4, distribution) = alloc h3 (PairArray (entries (nums_at h3 recommendVector)));
                         h5 = store h4 distribution (PairArray (sort_pairs (pairs_at h4 distribution)));
                         (h6, cdist) = alloc h5 (PairArray []);
                         h7 = accumulate_h h6 cdist (pairs_at h6 distribution)
                     in (h7, sample (Num u) (pairs_at h7 cdist))))))"

text \<open>The rated network that a heap holds at an address: the object, its matrix of
  finite numbers and its ratings (finite numbers and \<open>null\<close>).\<close>

definition is_nums :: "heap \<Rightarrow> addr \<Rightarrow> bool" where
  "is_nums h a = (a < length h \<and> (case h ! a of NumArray xs \<Rightarrow> True | _ \<Rightarrow> False))"

definition is_refs :: "heap \<Rightarrow> addr \<Rightarrow> bool" where
  "is_refs h a = (a < length h \<and> (case h ! a of RefArray xs \<Rightarrow> True | _ \<Rightarrow> False))"

fun is_fin :: "jsval \<Rightarrow> bool" where
  "is_fin (N (Fin r)) = True"
| "is_fin v = False"

fun to_rating :: "jsval \<Rightarrow> rating" where
  "to_rating (N (Fin r)) = Some r"
| "to_rating v = None"

definition load_rated_network :: "heap \<Rightarrow> addr \<Rightarrow> rated_network option" where
  "load_rated_network h a =
     (case rated_network_at h a of
        None \<Rightarrow> None
      | Some r \<Rightarrow>
         if is_refs h (obj_network r) \<and> list_all (is_nums h) (refs_at h (obj_network r)) \<and>
            list_all (list_all is_fin) (matrix_at h (obj_network r)) \<and>
            is_nums h (obj_ratings r) \<and> list_all numeric (nums_at h (obj_ratings r))
         then Some \<lparr>nNodes = obj_nNodes r,
                    network = map (map to_real) (matrix_at h (obj_network r)),
                    ratings = map to_rating (nums_at h (obj_ratings r)),
                    lower = obj_lower r, upper = obj_upper r\<rparr>
         else None)"

section \<open>Example inputs\<close>

text \<open>The scenario of the specification: items 0 and 1 similar, item 2 isolated, item 0
  rated 5.\<close>

definition scenario_matrix :: "real list list" where
  "scenario_matrix = [[0, 1, 0], [1, 0, 0], [0, 0, 0]]"

definition scenario_network :: rated_network where
  "scenario_network =
     \<lparr>nNodes = 3, network = scenario_matrix, ratings = [Some 5, None, None],
      lower = 0, upper = 1\<rparr>"

text \<open>Item 0 rated 5, items 1 and 2 both as similar to it as can be.\<close>

definition tie_network :: rated_network where
  "tie_network =
     \<lparr>nNodes = 3, network = [[0, 1, 1], [1, 0, 0], [1, 0, 0]], ratings = [Some 5, None, None],
      lower = 0, upper = 1\<rparr>"

text \<open>Two items with the similarity \<open>-1e17\<close>, the second one rated 5; the bounds are
  the ones that the constructor derives from the matrix.\<close>

definition big_matrix :: "real list list" where
  "big_matrix = [[0, - 100000000000000000], [- 100000000000000000, 0]]"

definition big_network :: rated_network where
  "big_network =
     \<lparr>nNodes = 2, network = big_matrix, ratings = [None, Some 5],
      lower = - 100000000000000000, upper = 0\<rparr>"

text \<open>
  Four items with the similarities \<open>0.1\<close>, \<open>0.6\<close> (the doubles nearest to them), \<open>0.5\<close>
  and 1, items 0 and 2 rated 5 and 3, the bounds 0 and 1.
\<close>

definition rounding_network :: rated_network where
  "rounding_network =
     \<lparr>nNodes = 4,
      network = [[0, 3602879701896397 / 36028797018963968, 5404319552844595 / 9007199254740992, 0],
                 [3602879701896397 / 36028797018963968, 0, 1 / 2, 1],
                 [5404319552844595 / 9007199254740992, 1 / 2, 0, 1],
                 [0, 1, 1, 0]],
      ratings = [Some 5, None, Some 3, None], lower = 0, upper = 1\<rparr>"

text \<open>Four items with similarities near the largest double, items 2 and 3 rated 5 and 0;
  the bounds are the ones that the constructor derives from the matrix.\<close>

definition overflow_matrix :: "real list list" where
  "overflow_matrix =
     [[0, 0, 0, 0], [0, 0, - (2 ^ 1022), - (2 ^ 1022)], [0, 0, 0, 2 ^ 1023], [0, 0, 0, 0]]"

definition overflow_network :: rated_network where
  "overflow_network =
     \<lparr>nNodes = 4, network = overflow_matrix, ratings = [None, None, Some 5, Some 0],
      lower = - (2 ^ 1022), upper = 2 ^ 1023\<rparr>"

text \<open>Every item of the scenario rated.\<close>

definition full_network :: rated_network where
  "full_network =
     \<lparr>nNodes = 3, network = scenario_matrix, ratings = [Some 5, Some 4, Some 1],
      lower = 0, upper = 1\<rparr>"

text \<open>What \<open>getRecommendationVector\<close> computes on the heap, as a function of the matrix and
  the ratings it reads.\<close>

definition recommendation_vector_of ::
  "recommendation_algorithm \<Rightarrow> jsval list list \<Rightarrow> jsval list \<Rightarrow> real \<Rightarrow> real \<Rightarrow> error + jsval list" where
  "recommendation_vector_of alg M R lo up =
     snd (matVecMul
            (map (\<lambda>row. map (\<lambda>elem. jsub elem (jdiv (jsub (Num up) (Num lo)) (Num 2))) row) M)
            (map (\<lambda>e. jsub e (Num (ratingRescaleFactor alg)))
               (map (\<lambda>e. if e = Null then Num (unratedStarRating alg) else e) R)))"

text \<open>The network with a tie, on a heap; the object is at address 5.\<close>

definition tie_heap :: heap where
  "tie_heap =
     [NumArray [Num 0, Num 1, Num 1], NumArray [Num 1, Num 0, Num 0], NumArray [Num 1, Num 0, Num 0],
      RefArray [0, 1, 2], NumArray [Num 5, Null, Null],
      RatedNetworkObj \<lparr>obj_nNodes = 3, obj_network = 3, obj_ratings = 4,
                        obj_lower = 0, obj_upper = 1\<rparr>]"

text \<open>A user whose rated network is the scenario.\<close>

definition scenario_user :: user where
  "scenario_user = \<lparr>ratedNetwork = scenario_network\<rparr>"

section \<open>Properties of rounding\<close>

lemma rd_0: "rd 0 = Fin 0"
  by (simp add: rd_def)

lemma round_even_of_int: "round_even (of_int n) = n"
  by (simp add: round_even_def)

lemma round_even_nonneg: "0 \<le> y \<Longrightarrow> 0 \<le> round_even y"
  by (simp add: round_even_def Let_def)

lemma floor_log2_bounds:
  assumes "2 powr of_int k \<le> \<bar>x\<bar>" "\<bar>x\<bar> < 2 powr of_int (k + 1)"
  shows "\<lfloor>log 2 \<bar>x\<bar>\<rfloor> = k"
proof -
  have pos: "0 < \<bar>x\<bar>" using assms(1) by (smt (verit) powr_gt_zero)
  have "of_int k \<le> log 2 \<bar>x\<bar>" using assms(1) pos by (simp add: le_log_iff)
  moreover have "log 2 \<bar>x\<bar> < of_int (k + 1)" using assms(2) pos by (simp add: log_less_iff)
  ultimately show ?thesis by (simp add: floor_eq_iff)
qed

text \<open>Rounding a real of which the leading binary digit is known.\<close>

lemma rd_binade:
  assumes "2 powr of_int k \<le> \<bar>x\<bar>" "\<bar>x\<bar> < 2 powr of_int (k + 1)"
  shows "rd x =
     (let e = max (- 1074) (k - 52);
          r = of_int (round_even (x / 2 powr of_int e)) * 2 powr of_int e
      in if max_double < r then PosInf else if r < - max_double then NegInf else Fin r)"
proof -
  have "x \<noteq> 0" using assms(1) by (smt (verit) powr_gt_zero)
  then show ?thesis
    by (simp add: rd_def ulp_exponent_def floor_log2_bounds [OF assms])
qed

text \<open>A double rounds to itself: an operation whose exact result is a double is exact.\<close>

lemma rd_exactI:
  assumes x: "x = of_int m * 2 powr of_int e"
    and m: "\<bar>m\<bar> < 2 ^ 53" and lo: "- 1074 \<le> e" and hi: "e \<le> 971"
  shows "rd x = Fin x"
proof (cases "m = 0")
  case True
  then show ?thesis using x by (simp add: rd_def)
next
  case False
  have xn: "x \<noteq> 0" using False x by simp
  have absx: "\<bar>x\<bar> = of_int \<bar>m\<bar> * 2 powr of_int e" using x by (simp add: abs_mult)
  have "\<bar>x\<bar> < 2 ^ 53 * 2 powr of_int e"
  proof -
    have "real_of_int \<bar>m\<bar> < real_of_int (2 ^ 53)" using m by (simp only: of_int_less_iff)
    then have "real_of_int \<bar>m\<bar> < 2 ^ 53" by simp
    then show ?thesis unfolding absx by simp
  qed
  also have "\<dots> = 2 powr of_int (e + 53)"
    by (simp add: powr_add powr_realpow [symmetric])
  finally have up: "\<bar>x\<bar> < 2 powr of_int (e + 53)" .
  have pos: "0 < \<bar>x\<bar>" using xn by simp
  have "log 2 \<bar>x\<bar> < of_int (e + 53)" using up pos by (simp add: log_less_iff)
  then have "\<lfloor>log 2 \<bar>x\<bar>\<rfloor> < e + 53" by (simp add: floor_less_iff)
  then have E: "ulp_exponent x \<le> e" using lo by (simp add: ulp_exponent_def)
  define E where "E = ulp_exponent x"
  define n where "n = m * 2 ^ nat (e - E)"
  have "(2::real) powr of_int e = 2 powr of_int (e - E) * 2 powr of_int E"
    by (simp add: powr_add [symmetric])
  also have "2 powr of_int (e - E) = (2::real) ^ nat (e - E)"
    using E unfolding E_def by (simp add: powr_realpow [symmetric])
  finally have pe: "(2::real) powr of_int e = 2 ^ nat (e - E) * 2 powr of_int E" .
  have q: "x / 2 powr of_int E = of_int n"
    unfolding n_def x pe by simp
  have r: "of_int n * 2 powr of_int E = x"
    unfolding n_def x pe by simp
  have "\<bar>x\<bar> \<le> max_double"
  proof -
    have "\<bar>m\<bar> \<le> 2 ^ 53 - 1" using m by simp
    then have "real_of_int \<bar>m\<bar> \<le> real_of_int (2 ^ 53 - 1)" by (simp only: of_int_le_iff)
    then have a: "real_of_int \<bar>m\<bar> \<le> 2 ^ 53 - 1" by simp
    have b: "2 powr of_int e \<le> (2::real) ^ 971"
    proof -
      have "(2::real) powr real_of_int e \<le> 2 powr real (971::nat)"
        using hi by (intro powr_mono) auto
      also have "(2::real) powr real (971::nat) = 2 ^ 971" by (rule powr_realpow) simp
      finally show ?thesis .
    qed
    have "real_of_int \<bar>m\<bar> * 2 powr of_int e \<le> (2 ^ 53 - 1) * 2 ^ 971"
      by (rule mult_mono [OF a b]) simp_all
    then show ?thesis unfolding absx max_double_def .
  qed
  then have "\<not> max_double < x" "\<not> x < - max_double" by auto
  then show ?thesis using xn
    by (simp add: rd_def E_def [symmetric] q round_even_of_int r Let_def)
qed

text \<open>Two cases that evaluation needs: the multiples of \<open>2^-10\<close> and of \<open>2^15\<close> with at
  most 53 binary digits.\<close>

lemma rd_small:
  assumes "x * 1024 \<in> \<int>" "\<bar>x * 1024\<bar> < 2 ^ 53"
  shows "rd x = Fin x"
proof -
  from assms(1) obtain m :: int where m: "x * 1024 = of_int m" by (auto elim: Ints_cases)
  have "\<bar>real_of_int m\<bar> < 2 ^ 53" using assms(2) m by simp
  then have "real_of_int \<bar>m\<bar> < real_of_int (2 ^ 53)" by simp
  then have "\<bar>m\<bar> < 2 ^ 53" by (simp only: of_int_less_iff)
  moreover have "x = of_int m * 2 powr of_int (- 10)"
    using m by (simp add: powr_minus powr_realpow [symmetric] field_simps)
  ultimately show ?thesis by (intro rd_exactI [of x m "- 10"]) simp_all
qed

lemma rd_large:
  assumes "x / 32768 \<in> \<int>" "\<bar>x / 32768\<bar> < 2 ^ 53"
  shows "rd x = Fin x"
proof -
  from assms(1) obtain m :: int where m: "x / 32768 = of_int m" by (auto elim: Ints_cases)
  have "\<bar>real_of_int m\<bar> < 2 ^ 53" using assms(2) m by simp
  then have "real_of_int \<bar>m\<bar> < real_of_int (2 ^ 53)" by simp
  then have "\<bar>m\<bar> < 2 ^ 53" by (simp only: of_int_less_iff)
  moreover have "x = of_int m * 2 powr of_int 15"
    using m by (simp add: powr_realpow [symmetric] field_simps)
  ultimately show ?thesis by (intro rd_exactI [of x m 15]) simp_all
qed

text \<open>The multiples of \<open>2^1020\<close> near the largest double: below \<open>2^1024\<close> they are
  doubles, from \<open>2^1024\<close> on they round to an infinity.\<close>

lemma rd_huge:
  assumes "x / 2 ^ 1020 \<in> \<int>" "\<bar>x / 2 ^ 1020\<bar> < 16"
  shows "rd x = Fin x"
proof -
  from assms(1) obtain m :: int where m: "x / 2 ^ 1020 = of_int m" by (auto elim: Ints_cases)
  have "\<bar>real_of_int m\<bar> < 16" using assms(2) m by simp
  then have "\<bar>m\<bar> < 16" by linarith
  then have "\<bar>m\<bar> * 2 ^ 49 < 16 * 2 ^ 49" by (intro mult_strict_right_mono) simp_all
  then have b: "\<bar>m * 2 ^ 49\<bar> < 2 ^ 53" by (simp add: abs_mult)
  have "x = of_int m * 2 ^ 1020" using m by (simp add: field_simps)
  also have "(2::real) ^ 1020 = 2 ^ 49 * 2 ^ 971" by (simp add: power_add [symmetric])
  also have "(2::real) ^ 971 = 2 powr of_int 971"
    by (simp add: powr_realpow [symmetric])
  finally have "x = of_int (m * 2 ^ 49) * 2 powr of_int 971" by simp
  from rd_exactI [OF this b] show ?thesis by simp
qed

lemma rd_overflow:
  assumes "2 ^ 1024 \<le> \<bar>x\<bar>" "\<bar>x\<bar> < 2 ^ 1025" "x / 2 ^ 1020 \<in> \<int>"
  shows "rd x = (if 0 < x then PosInf else NegInf)"
proof -
  from assms(3) obtain m :: int where m: "x / 2 ^ 1020 = of_int m" by (auto elim: Ints_cases)
  have x: "x = of_int m * 2 ^ 1020" using m by (simp add: field_simps)
  have p: "(2::real) powr of_int 972 = 2 ^ 972"
  proof -
    have "(2::real) powr real (972::nat) = 2 ^ 972" by (rule powr_realpow) simp
    then show ?thesis by simp
  qed
  have "(2::real) powr real (1024::nat) = 2 ^ 1024" by (rule powr_realpow) simp
  then have a: "2 powr of_int 1024 \<le> \<bar>x\<bar>" using assms(1) by simp
  have "(2::real) powr real (1025::nat) = 2 ^ 1025" by (rule powr_realpow) simp
  then have b: "\<bar>x\<bar> < 2 powr of_int (1024 + 1)" using assms(2) by simp
  have split: "(2::real) ^ 1020 = 2 ^ 48 * 2 ^ 972" by (simp add: power_add [symmetric])
  have q: "x / 2 powr of_int 972 = of_int (m * 2 ^ 48)"
    unfolding x p split by simp
  have r: "of_int (m * 2 ^ 48) * (2::real) powr of_int 972 = x"
    unfolding x p split by simp
  have e: "max (- 1074) (1024 - 52) = (972::int)" by simp
  have mx: "max_double < 2 ^ 1024"
  proof -
    have "max_double < 2 ^ 53 * 2 ^ 971" unfolding max_double_def
      by (intro mult_strict_right_mono) simp_all
    also have "\<dots> = (2::real) ^ 1024" by (simp add: power_add [symmetric])
    finally show ?thesis .
  qed
  have mp: "0 < max_double" by (simp add: max_double_def)
  have rdx: "rd x = (if max_double < x then PosInf else if x < - max_double then NegInf else Fin x)"
    by (simp only: rd_binade [OF a b] e Let_def q round_even_of_int r)
  show ?thesis
  proof (cases "0 < x")
    case True
    then have "\<bar>x\<bar> = x" by simp
    with assms(1) mx have "max_double < x" by linarith
    with True rdx show ?thesis by simp
  next
    case False
    then have "\<bar>x\<bar> = - x" by simp
    with assms(1) mx have "x < - max_double" by linarith
    moreover from False mp have "\<not> max_double < x" by linarith
    ultimately show ?thesis using False rdx by simp
  qed
qed

text \<open>Rounding in the binades that the examples with inexact results need.\<close>

lemmas rd_binades = rd_binade [of "- 54"] rd_binade [of "- 5"] rd_binade [of "- 4"]
  rd_binade [of "- 3"] rd_binade [of "- 2"] rd_binade [of "- 1"] rd_binade [of 0]
  rd_binade [of 1] rd_binade [of 2]

text \<open>Rounding gives no NaN, and nothing negative from a real that is not negative.\<close>

lemma rd_not_NaN: "rd x \<noteq> NaN"
  by (simp add: rd_def Let_def)

lemma rd_nonneg:
  assumes "0 \<le> x"
  shows "rd x = PosInf \<or> (\<exists>r. 0 \<le> r \<and> rd x = Fin r)"
proof -
  have "0 \<le> real_of_int (round_even (x / 2 powr of_int (ulp_exponent x))) * 2 powr of_int (ulp_exponent x)"
    using assms by (intro mult_nonneg_nonneg) (simp_all add: round_even_nonneg)
  moreover have "0 < max_double" by (simp add: max_double_def)
  ultimately show ?thesis by (auto simp add: rd_def Let_def)
qed

text \<open>Rounding a real within the range of the doubles gives a finite double.\<close>

lemma round_even_le: "y \<le> of_int k \<Longrightarrow> round_even y \<le> k"
proof -
  assume y: "y \<le> of_int k"
  have f: "\<lfloor>y\<rfloor> \<le> k" using y by (simp add: floor_le_iff)
  show ?thesis
  proof (cases "y = of_int \<lfloor>y\<rfloor>")
    case True
    then have "y - of_int \<lfloor>y\<rfloor> < 1 / 2" by simp
    then show ?thesis using f by (simp add: round_even_def Let_def)
  next
    case False
    then have "of_int \<lfloor>y\<rfloor> < y" using of_int_floor_le [of y] by linarith
    with y have "real_of_int \<lfloor>y\<rfloor> < of_int k" by linarith
    then have "\<lfloor>y\<rfloor> < k" by simp
    then show ?thesis by (simp add: round_even_def Let_def)
  qed
qed

lemma round_even_ge: "of_int k \<le> y \<Longrightarrow> k \<le> round_even y"
proof -
  assume "of_int k \<le> y"
  then have "k \<le> \<lfloor>y\<rfloor>" by (simp add: le_floor_iff)
  then show ?thesis by (simp add: round_even_def Let_def)
qed

lemma rd_finite:
  assumes "\<bar>x\<bar> \<le> max_double"
  shows "\<exists>r. rd x = Fin r \<and> \<bar>r\<bar> \<le> max_double"
proof (cases "x = 0")
  case True
  then show ?thesis by (simp add: rd_def max_double_def)
next
  case False
  define E where "E = ulp_exponent x"
  define K :: int where "K = (2 ^ 53 - 1) * 2 ^ nat (971 - E)"
  have pos: "0 < \<bar>x\<bar>" using False by simp
  have "max_double < 2 ^ 53 * 2 ^ 971" unfolding max_double_def
    by (intro mult_strict_right_mono) simp_all
  also have "\<dots> = (2::real) ^ 1024" by (simp add: power_add [symmetric])
  also have "\<dots> = 2 powr real (1024::nat)" by (rule powr_realpow [symmetric]) simp
  finally have "\<bar>x\<bar> < 2 powr real (1024::nat)" using assms by linarith
  then have "log 2 \<bar>x\<bar> < real (1024::nat)" using pos by (simp add: log_less_iff)
  then have "\<lfloor>log 2 \<bar>x\<bar>\<rfloor> < 1024" by (simp add: floor_less_iff)
  then have E: "E \<le> 971" by (simp add: E_def ulp_exponent_def)
  have p2: "(2::real) ^ 971 = 2 ^ nat (971 - E) * 2 powr of_int E"
  proof -
    have "(2::real) ^ 971 = 2 powr real (971::nat)" by (rule powr_realpow [symmetric]) simp
    also have "real (971::nat) = of_int (971 - E) + of_int E" by simp
    also have "(2::real) powr (of_int (971 - E) + of_int E)
        = 2 powr of_int (971 - E) * 2 powr of_int E"
      by (rule powr_add)
    also have "(2::real) powr of_int (971 - E) = 2 ^ nat (971 - E)"
      using E by (simp add: powr_realpow [symmetric])
    finally show ?thesis .
  qed
  have M: "max_double = of_int K * 2 powr of_int E"
    unfolding max_double_def K_def p2 by simp
  have pp: "(0::real) < 2 powr of_int E" by simp
  let ?y = "x / 2 powr of_int E"
  have "x \<le> of_int K * 2 powr of_int E" using assms M by linarith
  then have "?y \<le> of_int K" using pp by (simp add: pos_divide_le_eq)
  then have up: "round_even ?y \<le> K" by (rule round_even_le)
  have "- (of_int K * 2 powr of_int E) \<le> x" using assms M by linarith
  then have "of_int (- K) \<le> ?y" using pp by (simp add: pos_le_divide_eq)
  then have lo: "- K \<le> round_even ?y" by (rule round_even_ge)
  let ?r = "real_of_int (round_even ?y) * 2 powr of_int E"
  have "real_of_int (round_even ?y) \<le> real_of_int K" using up by (simp only: of_int_le_iff)
  then have "?r \<le> real_of_int K * 2 powr of_int E"
    using pp by (intro mult_right_mono) simp_all
  then have r1: "?r \<le> max_double" using M by simp
  have "real_of_int (- K) \<le> real_of_int (round_even ?y)" using lo by (simp only: of_int_le_iff)
  then have "real_of_int (- K) * 2 powr of_int E \<le> ?r"
    using pp by (intro mult_right_mono) simp_all
  then have r2: "- max_double \<le> ?r" using M by simp
  from r1 r2 have "rd x = Fin ?r"
    using False by (simp add: rd_def E_def [symmetric] Let_def)
  with r1 r2 show ?thesis by (auto simp: abs_le_iff)
qed

text \<open>The comparison \<open><\<close> is a strict order, and total on the values that are not NaN.\<close>

lemma jgt_jlt: "jgt a b = jlt b a"
  by (simp add: jgt_def jlt_def)

lemma nlt_irrefl: "\<not> nlt x x"
  by (cases x) simp_all

lemma nlt_trans: "nlt x y \<Longrightarrow> nlt y z \<Longrightarrow> nlt x z"
  by (cases x; cases y; cases z) simp_all

lemma nlt_neg_trans:
  "x \<noteq> NaN \<Longrightarrow> y \<noteq> NaN \<Longrightarrow> z \<noteq> NaN \<Longrightarrow> \<not> nlt x y \<Longrightarrow> \<not> nlt y z \<Longrightarrow> \<not> nlt x z"
  by (cases x; cases y; cases z) simp_all

lemma nlt_asym: "nlt x y \<Longrightarrow> \<not> nlt y x"
  by (cases x; cases y) simp_all

lemma jlt_irrefl: "\<not> jlt a a"
  by (simp add: jlt_def nlt_irrefl)

lemma jlt_trans: "jlt a b \<Longrightarrow> jlt b c \<Longrightarrow> jlt a c"
  unfolding jlt_def by (rule nlt_trans)

lemma jlt_neg_trans:
  "not_nan a \<Longrightarrow> not_nan b \<Longrightarrow> not_nan c \<Longrightarrow> \<not> jlt a b \<Longrightarrow> \<not> jlt b c \<Longrightarrow> \<not> jlt a c"
  unfolding jlt_def not_nan_def by (rule nlt_neg_trans)

lemma jlt_asym: "jlt a b \<Longrightarrow> \<not> jlt b a"
  unfolding jlt_def by (rule nlt_asym)

section \<open>Properties of the rated network\<close>

lemma RatedNetwork_inv:
  "RatedNetwork nw rs lo up = Inr rn \<Longrightarrow> rated_network_inv rn"
  by (auto simp: RatedNetwork_def Let_def rated_network_inv_def list_all_iff
      split: if_splits sum.splits option.splits list.splits)

lemma addRating_inv:
  "rated_network_inv rn \<Longrightarrow> addRating rn i r = Inr rn' \<Longrightarrow> rated_network_inv rn'"
  by (auto simp: addRating_def rated_network_inv_def split: if_splits)

lemma scenario_inv: "rated_network_inv scenario_network"
  by (simp add: scenario_network_def scenario_matrix_def rated_network_inv_def)

lemma scenario_unrated: "hasUnrated scenario_network"
  by (simp add: scenario_network_def hasUnrated_def)

text \<open>
  Claim C10. \<open>addRating\<close> accepts \<open>null\<close> as the rating: for every index \<open>i\<close> with
  \<open>0 \<le> i < N\<close> of a rated network, \<open>addRating(i, null)\<close> succeeds and stores \<open>null\<close> at
  index \<open>i\<close>, so that \<open>hasUnrated()\<close> is true afterwards, also when it was false before.
\<close>

theorem addRating_null:
  assumes "rated_network_inv rn" and "0 \<le> i" and "i < int (nNodes rn)"
  shows "\<exists>rn'. addRating rn i None = Inr rn' \<and> ratings rn' = (ratings rn)[nat i := None]
          \<and> ratings rn' ! nat i = None \<and> hasUnrated rn'"
  using assms
  by (auto simp: addRating_def rated_network_inv_def hasUnrated_def list_all_iff set_update_memI)

theorem addRating_null_witness:
  "rated_network_inv full_network \<and> (0::int) \<le> 1 \<and> 1 < int (nNodes full_network)
   \<and> \<not> hasUnrated full_network
   \<and> (\<exists>rn'. addRating full_network 1 None = Inr rn'
          \<and> ratings rn' = (ratings full_network)[nat 1 := None]
          \<and> ratings rn' ! nat 1 = None \<and> hasUnrated rn')"
proof -
  have inv: "rated_network_inv full_network"
    by (simp add: full_network_def scenario_matrix_def rated_network_inv_def)
  have lo: "(0::int) \<le> 1" by simp
  have hi: "1 < int (nNodes full_network)" by (simp add: full_network_def)
  have before: "\<not> hasUnrated full_network" by (simp add: full_network_def hasUnrated_def)
  show ?thesis using inv lo hi before addRating_null [OF inv lo hi] by blast
qed

section \<open>Properties of the greedy recommendation\<close>

lemma entries_snoc: "entries (xs @ [x]) = entries xs @ [(length xs, x)]"
  by (simp add: entries_def)

lemma length_entries: "length (entries xs) = length xs"
  by (simp add: entries_def)

lemma map_snd_entries: "map snd (entries xs) = xs"
  unfolding entries_def by (rule map_snd_zip) simp

lemma nth_entries: "i < length xs \<Longrightarrow> entries xs ! i = (i, xs ! i)"
  by (simp add: entries_def)

lemma reduce_snoc:
  "xs \<noteq> [] \<Longrightarrow> reduce f (xs @ [x]) = (case reduce f xs of Inl e \<Rightarrow> Inl e | Inr r \<Rightarrow> Inr (f r x))"
  by (cases xs) (simp_all add: reduce_def)

text \<open>On a network that satisfies the invariant there is one score for every item.\<close>

lemma getRecommendationVector_length:
  assumes "rated_network_inv rn"
  shows "\<exists>rv. getRecommendationVector alg rn = Inr rv \<and> length rv = nNodes rn"
proof -
  define M where "M = map (\<lambda>row. map (\<lambda>elem. jsub (Num elem)
      (jdiv (jsub (Num (upper rn)) (Num (lower rn))) (Num 2))) row) (network rn)"
  define v where "v = map (\<lambda>e. jsub e (Num (ratingRescaleFactor alg)))
      (map (\<lambda>e. case e of None \<Rightarrow> Num (unratedStarRating alg) | Some r \<Rightarrow> Num r) (ratings rn))"
  from assms have ne: "M \<noteq> []" and len: "length M = nNodes rn"
    by (auto simp: rated_network_inv_def M_def)
  have "getRecommendationVector alg rn = snd (matVecMul M v)"
    unfolding getRecommendationVector_def M_def v_def Let_def ..
  also have "\<dots> = Inr (map (\<lambda>row. row_sum row v (Num 0)) M)"
    using ne by (cases M) (simp_all add: matVecMul_def)
  finally show ?thesis using len by simp
qed

text \<open>The first \<open>reduce\<close> returns a lower bound of the scores, when none of them is NaN.\<close>

lemma foldl_min_lower:
  "not_nan a \<Longrightarrow> list_all not_nan rs \<Longrightarrow>
   \<exists>m. foldl (\<lambda>e1 e2. if jlt e1 e2 then e1 else e2) a rs = m \<and> not_nan m
       \<and> \<not> jlt a m \<and> (\<forall>r\<in>set rs. \<not> jlt r m)"
proof (induction rs arbitrary: a)
  case Nil
  then show ?case by (simp add: jlt_irrefl)
next
  case (Cons r rs)
  then have nr: "not_nan r" and nrs: "list_all not_nan rs" by simp_all
  show ?case
  proof (cases "jlt a r")
    case True
    from Cons.IH [OF Cons.prems(1) nrs] obtain m where
      m: "foldl (\<lambda>e1 e2. if jlt e1 e2 then e1 else e2) a rs = m" "not_nan m" "\<not> jlt a m"
         "\<forall>r\<in>set rs. \<not> jlt r m" by blast
    have "\<not> jlt r m" using m(3) True jlt_trans by blast
    with m True show ?thesis by simp
  next
    case False
    from Cons.IH [OF nr nrs] obtain m where
      m: "foldl (\<lambda>e1 e2. if jlt e1 e2 then e1 else e2) r rs = m" "not_nan m" "\<not> jlt r m"
         "\<forall>r\<in>set rs. \<not> jlt r m" by blast
    have "\<not> jlt a m" using jlt_neg_trans [OF Cons.prems(1) nr m(2) False m(3)] .
    with m False show ?thesis by simp
  qed
qed

lemma reduce_min_lower:
  "rv \<noteq> [] \<Longrightarrow> list_all not_nan rv \<Longrightarrow>
   \<exists>m. reduce (\<lambda>e1 e2. if jlt e1 e2 then e1 else e2) rv = Inr m \<and> not_nan m
       \<and> (\<forall>r\<in>set rv. \<not> jlt r m)"
proof (cases rv)
  case Nil
  assume "rv \<noteq> []"
  with Nil show ?thesis by simp
next
  case (Cons a rs)
  assume "list_all not_nan rv"
  with Cons have "not_nan a" "list_all not_nan rs" by simp_all
  from foldl_min_lower [OF this] show ?thesis using Cons by (auto simp: reduce_def)
qed

text \<open>The \<open>forEach\<close> writes inside the recommendation vector.\<close>

lemma length_removed: "length (removed m rs rv) = length rv"
  by (simp add: removed_def length_entries)

lemma nth_removed:
  "i < length rv \<Longrightarrow>
   removed m rs rv ! i = (if i < length rs \<and> rs ! i \<noteq> None then jsub m (Num 1) else rv ! i)"
  by (simp add: removed_def length_entries nth_entries)

lemma remove_rated_removed:
  "length rs \<le> length rv \<Longrightarrow> remove_rated m rs rv = removed m rs rv"
proof (induction rs rule: rev_induct)
  case Nil
  have "removed m [] rv = map snd (entries rv)"
    by (simp add: removed_def split_def)
  then show ?case by (simp add: remove_rated_def entries_def map_snd_entries)
next
  case (snoc r rs)
  then have IH: "remove_rated m rs rv = removed m rs rv"
    and len: "length rs < length rv" by auto
  have step: "remove_rated m (rs @ [r]) rv =
     (if r \<noteq> None
      then setidx (remove_rated m rs rv) (length rs) (jsub m (Num 1))
      else remove_rated m rs rv)"
    by (simp add: remove_rated_def entries_snoc)
  have upd: "setidx (removed m rs rv) (length rs) (jsub m (Num 1)) =
        (removed m rs rv)[length rs := jsub m (Num 1)]"
    using len by (simp add: setidx_def length_removed)
  have eq: "(if r \<noteq> None then (removed m rs rv)[length rs := jsub m (Num 1)] else removed m rs rv)
      = removed m (rs @ [r]) rv"
  proof (rule nth_equalityI)
    show "length (if r \<noteq> None then (removed m rs rv)[length rs := jsub m (Num 1)]
                  else removed m rs rv) =
          length (removed m (rs @ [r]) rv)"
      by (simp add: length_removed)
  next
    fix i
    assume "i < length (if r \<noteq> None then (removed m rs rv)[length rs := jsub m (Num 1)]
                        else removed m rs rv)"
    then have i: "i < length rv" by (simp add: length_removed split: if_splits)
    consider "i < length rs" | "i = length rs" | "length rs < i" by linarith
    then show "(if r \<noteq> None then (removed m rs rv)[length rs := jsub m (Num 1)]
                else removed m rs rv) ! i =
          removed m (rs @ [r]) rv ! i"
    proof cases
      case 1
      with i show ?thesis by (simp add: nth_removed length_removed nth_append)
    next
      case 2
      with i show ?thesis by (simp add: nth_removed length_removed nth_append)
    next
      case 3
      with i show ?thesis by (simp add: nth_removed length_removed nth_append)
    qed
  qed
  show ?case
    unfolding step IH upd using eq by (simp split: if_splits)
qed

text \<open>The second \<open>reduce\<close> keeps its accumulator only when it is strictly greater, so it
  ends on the last maximum, when no score is NaN.\<close>

lemma last_max_of_snoc_keep:
  "last_max_of sc i \<Longrightarrow> jgt (sc ! i) x \<Longrightarrow> last_max_of (sc @ [x]) i"
  by (auto simp: last_max_of_def nth_append list_all_iff jgt_jlt dest: jlt_asym)

lemma last_max_of_snoc_new:
  assumes "last_max_of sc i" "\<not> jgt (sc ! i) x" "list_all not_nan sc" "not_nan x"
  shows "last_max_of (sc @ [x]) (length sc)"
proof -
  from assms(1) have il: "i < length sc" and mx: "\<forall>s\<in>set sc. \<not> jlt (sc ! i) s"
    by (auto simp: last_max_of_def list_all_iff jgt_jlt)
  have ni: "not_nan (sc ! i)" using assms(3) il by (simp add: list_all_iff)
  have "\<not> jlt x s" if "s \<in> set sc" for s
  proof -
    have ns: "not_nan s" using assms(3) that by (simp add: list_all_iff)
    have "\<not> jlt x (sc ! i)" using assms(2) by (simp add: jgt_jlt)
    moreover have "\<not> jlt (sc ! i) s" using mx that by simp
    ultimately show ?thesis using jlt_neg_trans [OF assms(4) ni ns] by blast
  qed
  then show ?thesis
    by (auto simp: last_max_of_def list_all_iff jgt_jlt jlt_irrefl)
qed

lemma reduce_argmax:
  "sc \<noteq> [] \<Longrightarrow> list_all not_nan sc \<Longrightarrow>
   \<exists>i. reduce (\<lambda>(i1, e1) (i2, e2). if jgt e1 e2 then (i1, e1) else (i2, e2))
          (entries sc) = Inr (i, sc ! i) \<and> last_max_of sc i"
proof (induction sc rule: rev_induct)
  case Nil
  then show ?case by simp
next
  case (snoc x sc)
  then have nx: "not_nan x" and nsc: "list_all not_nan sc" by simp_all
  show ?case
  proof (cases "sc = []")
    case True
    then show ?thesis by (simp add: reduce_def entries_def last_max_of_def jgt_jlt jlt_irrefl)
  next
    case False
    with snoc.IH nsc obtain i where
      i: "reduce (\<lambda>(i1, e1) (i2, e2). if jgt e1 e2 then (i1, e1) else (i2, e2))
            (entries sc) = Inr (i, sc ! i)" "last_max_of sc i" by blast
    have ne: "entries sc \<noteq> []" using False by (simp add: entries_def)
    have il: "i < length sc" using i(2) by (simp add: last_max_of_def)
    show ?thesis
    proof (cases "jgt (sc ! i) x")
      case True
      then show ?thesis
        using i il last_max_of_snoc_keep [OF i(2) True]
        by (auto simp: entries_snoc reduce_snoc [OF ne] nth_append intro!: exI [of _ i])
    next
      case False
      then show ?thesis
        using i il last_max_of_snoc_new [OF i(2) False nsc nx]
        by (auto simp: entries_snoc reduce_snoc [OF ne] nth_append
            intro!: exI [of _ "length sc"])
    qed
  qed
qed

lemma greedy_scores_length:
  assumes inv: "rated_network_inv rn"
  shows "\<exists>rv m. getRecommendationVector alg rn = Inr rv \<and> length rv = nNodes rn
          \<and> reduce (\<lambda>e1 e2. if jlt e1 e2 then e1 else e2) rv = Inr m
          \<and> greedy_scores alg rn = Inr (removed m (ratings rn) rv)"
proof -
  from getRecommendationVector_length [OF inv] obtain rv where
    rv: "getRecommendationVector alg rn = Inr rv" "length rv = nNodes rn" by blast
  from inv rv have ne: "rv \<noteq> []" and len: "length (ratings rn) \<le> length rv"
    by (auto simp: rated_network_inv_def)
  from ne obtain m where m: "reduce (\<lambda>e1 e2. if jlt e1 e2 then e1 else e2) rv = Inr m"
    by (cases rv) (auto simp: reduce_def)
  have "greedy_scores alg rn = Inr (removed m (ratings rn) rv)"
    by (simp add: greedy_scores_def rv m remove_rated_removed [OF len])
  with rv m show ?thesis by blast
qed

text \<open>The greedy algorithm recommends the last maximum of its scores, when none of them
  is NaN.\<close>

lemma greedy_argmax:
  assumes inv: "rated_network_inv rn" and sc: "greedy_scores alg rn = Inr sc"
    and nn: "list_all not_nan sc"
  shows "\<exists>i. greedy_recommend alg rn = Inr i \<and> last_max_of sc i"
proof -
  from greedy_scores_length [OF inv, of alg] sc obtain m rv where
    "length rv = nNodes rn" "sc = removed m (ratings rn) rv" by auto
  then have "length sc = nNodes rn" by (simp add: length_removed)
  with inv have "sc \<noteq> []" by (auto simp: rated_network_inv_def)
  from reduce_argmax [OF this nn] obtain i where
    "reduce (\<lambda>(i1, e1) (i2, e2). if jgt e1 e2 then (i1, e1) else (i2, e2)) (entries sc)
       = Inr (i, sc ! i)" "last_max_of sc i" by blast
  then show ?thesis by (auto simp: greedy_recommend_def sc)
qed

text \<open>
  Where the subtraction \<open>minVal - 1\<close> gives a number below \<open>minVal\<close> and no score is NaN,
  the \<open>forEach\<close> does what its comment says, and the greedy algorithm recommends an
  unrated item.
\<close>

lemma greedy_unrated_when_below:
  assumes inv: "rated_network_inv rn" and un: "hasUnrated rn"
    and rv: "getRecommendationVector alg rn = Inr rv" and nn: "list_all not_nan rv"
    and m: "reduce (\<lambda>e1 e2. if jlt e1 e2 then e1 else e2) rv = Inr m"
    and below: "jlt (jsub m (Num 1)) m"
  shows "\<exists>i. greedy_recommend alg rn = Inr i \<and> i < length (ratings rn) \<and> ratings rn ! i = None"
proof -
  let ?sc = "removed m (ratings rn) rv"
  from greedy_scores_length [OF inv, of alg] rv m have
    len: "length rv = nNodes rn" and sc: "greedy_scores alg rn = Inr ?sc" by auto
  from inv len have lr: "length (ratings rn) = length rv" and ne: "rv \<noteq> []"
    by (auto simp: rated_network_inv_def)
  from reduce_min_lower [OF ne nn] m have nm: "not_nan m" and lower: "\<forall>r\<in>set rv. \<not> jlt r m"
    by auto
  have nb: "not_nan (jsub m (Num 1))"
    using below by (cases "toNumber (jsub m (Num 1))") (auto simp: jlt_def not_nan_def)
  have nsc: "list_all not_nan ?sc"
    using nn nb by (auto simp: list_all_length length_removed nth_removed)
  from greedy_argmax [OF inv sc nsc] obtain i where
    i: "greedy_recommend alg rn = Inr i" "last_max_of ?sc i" by blast
  from i(2) have il: "i < length rv" and mx: "\<forall>s\<in>set ?sc. \<not> jlt (?sc ! i) s"
    by (auto simp: last_max_of_def length_removed list_all_iff jgt_jlt)
  from un obtain u where u: "u < length (ratings rn)" "ratings rn ! u = None"
    by (auto simp: hasUnrated_def list_all_iff in_set_conv_nth)
  have su: "?sc ! u = rv ! u" using u lr by (simp add: nth_removed)
  have "\<not> jlt (rv ! u) m" using lower u lr by auto
  have "\<not> jlt (?sc ! i) (rv ! u)" using mx u lr su by (metis length_removed nth_mem)
  have "ratings rn ! i = None"
  proof (rule ccontr)
    assume "ratings rn ! i \<noteq> None"
    then have "?sc ! i = jsub m (Num 1)" using il lr by (simp add: nth_removed)
    with \<open>\<not> jlt (?sc ! i) (rv ! u)\<close> have a: "\<not> jlt (jsub m (Num 1)) (rv ! u)" by simp
    have nu: "not_nan (rv ! u)" using nn u lr by (simp add: list_all_length)
    have "jlt m (rv ! u) \<or> \<not> jlt m (rv ! u)" by simp
    then show False
    proof
      assume "jlt m (rv ! u)"
      with below have "jlt (jsub m (Num 1)) (rv ! u)" by (rule jlt_trans)
      with a show False by simp
    next
      assume b: "\<not> jlt m (rv ! u)"
      from jlt_neg_trans [OF nm nu nm b \<open>\<not> jlt (rv ! u) m\<close>] have "\<not> jlt m m" .
      have "\<not> jlt (jsub m (Num 1)) m"
        using jlt_neg_trans [OF nb nu nm a \<open>\<not> jlt (rv ! u) m\<close>] .
      with below show False by simp
    qed
  qed
  with i il lr show ?thesis by auto
qed

lemmas greedy_eval = greedy_recommend_def greedy_scores_def getRecommendationVector_def
  matVecMul_def default_algorithm_def ratingRescaleFactorDefault_def unratedStarRatingDefault_def
  reduce_def entries_def remove_rated_def setidx_def jadd_def jsub_def jmul_def jdiv_def jlt_def
  jgt_def nsub_def upt_rec rd_small rd_0

lemma rd_below_big: "rd (- 375000000000000001) = Fin (- 375000000000000000)"
  by (subst rd_binade [of 58]) (simp_all add: round_even_def max_double_def Let_def)

text \<open>
  Claim C1 says that the greedy \<open>recommend\<close>, on a rated network with at least one
  unrated item, never returns the index of an item that is already rated. The code
  means to do so (its comment: rated elements are removed, by reducing their score, to
  not recommend the same item twice) and it does where \<open>minVal - 1\<close> is below \<open>minVal\<close>
  (lemma \<open>greedy_unrated_when_below\<close>). From \<open>2^53\<close> on, a double less 1 rounds back to
  the double: on the network of two items with similarity \<open>-1e17\<close>, the first unrated
  and the second rated 5, the scores are \<open>-3.75e17\<close> and \<open>-1.25e17\<close>, the rated item
  gets \<open>-3.75e17 - 1\<close>, which is \<open>-3.75e17\<close> again, the two scores tie, and the
  algorithm returns item 1, the rated one.
\<close>

theorem greedy_recommends_rated_item:
  "RatedNetwork big_matrix [None, Some 5] None None = Inr big_network
   \<and> rated_network_inv big_network \<and> hasUnrated big_network
   \<and> getRecommendationVector default_algorithm big_network
       = Inr [Num (- 375000000000000000), Num (- 125000000000000000)]
   \<and> jsub (Num (- 375000000000000000)) (Num 1) = Num (- 375000000000000000)
   \<and> greedy_scores default_algorithm big_network
       = Inr [Num (- 375000000000000000), Num (- 375000000000000000)]
   \<and> greedy_recommend default_algorithm big_network = Inr 1
   \<and> ratings big_network ! 1 = Some 5"
  by (simp add: RatedNetwork_def big_matrix_def big_network_def twoDimReduce_def pick_def
      rated_network_inv_def hasUnrated_def greedy_eval rd_large rd_below_big)

text \<open>
  Claim C4, as stated: among the items with the maximal score after the rated items
  are pushed below the minimum, the greedy \<open>recommend\<close> returns the smallest index. It
  fails on \<open>tie_network\<close>: items 1 and 2 both score \<open>5/4\<close>, item 0 scores \<open>-9/4\<close>, and
  the algorithm returns 2, which is not the first maximum.
\<close>

theorem greedy_first_max_counterexample:
  "rated_network_inv tie_network \<and> hasUnrated tie_network
   \<and> greedy_scores default_algorithm tie_network = Inr (map Num [- (9 / 4), 5 / 4, 5 / 4])
   \<and> greedy_recommend default_algorithm tie_network = Inr 2
   \<and> \<not> is_first_max [- (9 / 4), 5 / 4, 5 / 4] 2
   \<and> is_first_max [- (9 / 4), 5 / 4, 5 / 4] 1"
  by (simp add: tie_network_def greedy_eval is_first_max_def rated_network_inv_def hasUnrated_def)

text \<open>
  Claim C4, amended: for every rated network with at least one unrated item, when the
  scores that the algorithm has computed (in double precision, after the rated items
  have been given the score \<open>minVal - 1\<close>) contain no NaN, the greedy \<open>recommend\<close>
  returns the largest index at which the computed score is maximal: no item has a
  greater computed score, and every item after it has a smaller one.
\<close>

theorem greedy_last_max:
  assumes inv: "rated_network_inv rn" and un: "hasUnrated rn"
    and sc: "greedy_scores alg rn = Inr sc" and nn: "list_all not_nan sc"
  shows "\<exists>i. greedy_recommend alg rn = Inr i \<and> last_max_of sc i"
  using greedy_argmax [OF inv sc nn] .

theorem greedy_last_max_witness:
  "rated_network_inv tie_network \<and> hasUnrated tie_network
   \<and> greedy_scores default_algorithm tie_network = Inr [Num (- (9 / 4)), Num (5 / 4), Num (5 / 4)]
   \<and> list_all not_nan [Num (- (9 / 4)), Num (5 / 4), Num (5 / 4)]
   \<and> (\<exists>i. greedy_recommend default_algorithm tie_network = Inr i
          \<and> last_max_of [Num (- (9 / 4)), Num (5 / 4), Num (5 / 4)] i)"
proof -
  have inv: "rated_network_inv tie_network"
    by (simp add: tie_network_def rated_network_inv_def)
  have un: "hasUnrated tie_network"
    by (simp add: tie_network_def hasUnrated_def)
  have sc: "greedy_scores default_algorithm tie_network
      = Inr [Num (- (9 / 4)), Num (5 / 4), Num (5 / 4)]"
    by (simp add: tie_network_def greedy_eval)
  have nn: "list_all not_nan [Num (- (9 / 4)), Num (5 / 4), Num (5 / 4)]"
    by (simp add: not_nan_def)
  show ?thesis using inv un sc nn greedy_last_max [OF inv un sc nn] by blast
qed

text \<open>
  The computed scores, not the exact ones, decide. On \<open>rounding_network\<close> the exact score
  of item 1, \<open>(0.1 - 0.5) * 2.5\<close>, is above \<open>-1\<close>, the exact score of item 3; in double
  precision both are \<open>-1\<close>, and the algorithm returns item 3.
\<close>

lemma greedy_rounding_tie:
  "rated_network_inv rounding_network \<and> hasUnrated rounding_network
   \<and> greedy_scores default_algorithm rounding_network
       = Inr [Num (- (2476979795053773 / 1125899906842624)), Num (- 1),
              Num (- (2476979795053773 / 1125899906842624)), Num (- 1)]
   \<and> greedy_recommend default_algorithm rounding_network = Inr 3
   \<and> (- 1 :: real) < (3602879701896397 / 36028797018963968 - 1 / 2) * (5 / 2)"
  by (simp add: rounding_network_def rated_network_inv_def hasUnrated_def greedy_eval rd_binades
      round_even_def max_double_def Let_def powr_minus)

text \<open>
  A score that is NaN ends the comparison chain: every comparison with it is false, and
  the \<open>reduce\<close> goes on from the next item. On \<open>overflow_network\<close> two products overflow
  to \<open>Infinity\<close> and \<open>-Infinity\<close>, the score of item 1 is their sum, NaN, and the
  algorithm returns item 3, which is rated and scores \<open>-Infinity\<close>, although the unrated
  item 0 scores 0.
\<close>

lemma greedy_nan_score:
  "RatedNetwork overflow_matrix [None, None, Some 5, Some 0] None None = Inr overflow_network
   \<and> hasUnrated overflow_network
   \<and> greedy_scores default_algorithm overflow_network = Inr [Num 0, N NaN, N NegInf, N NegInf]
   \<and> greedy_recommend default_algorithm overflow_network = Inr 3
   \<and> ratings overflow_network ! 3 = Some 0
   \<and> jgt (Num 0) (N NegInf)
   \<and> \<not> last_max_of [Num 0, N NaN, N NegInf, N NegInf] 3"
  by (simp add: RatedNetwork_def overflow_matrix_def overflow_network_def twoDimReduce_def pick_def
      hasUnrated_def greedy_eval rd_huge rd_overflow inf_of_sign_def last_max_of_def)

text \<open>
  Claim C8. For the network of three items with similarity matrix
  \<open>[[0,1,0],[1,0,0],[0,0,0]]\<close>, its bounds derived from the matrix by the constructor, and
  the ratings \<open>[5, null, null]\<close>, the greedy recommendation is item 1.
\<close>

theorem scenario_recommends_item_1:
  "RatedNetwork scenario_matrix [Some 5, None, None] None None = Inr scenario_network
   \<and> greedy_recommend default_algorithm scenario_network = Inr 1"
  by (simp add: RatedNetwork_def scenario_matrix_def scenario_network_def twoDimReduce_def
      pick_def greedy_eval)

section \<open>Properties of the matrix utilities\<close>

lemmas arith_eval = jadd_def jsub_def jmul_def jdiv_def jsquare_def jsqrt_def jlt_def jgt_def
  nsub_def getidx_def setidx_def strict_neq_def strict_eq_def rd_small rd_0

text \<open>\<open>vectorDist\<close> has no path that raises.\<close>

lemma vectorDist_returns: "\<exists>d. snd (vectorDist v1 v2) = Inr d"
  by (simp add: vectorDist_def)

text \<open>
  Claim C5 says that \<open>vectorDist(v1, v2)\<close> fails with a precondition error when the
  lengths differ. The code writes a line to the console and returns a value: 0 for
  \<open>[1]\<close> and \<open>[1, 2]\<close> (the second entry of \<open>v2\<close> is never read), NaN for \<open>[1, 2]\<close> and
  \<open>[1]\<close>.
\<close>

theorem vectorDist_length_mismatch_returns:
  "vectorDist [Num 1] [Num 1, Num 2] = ([''v1 and v2 must be the same length''], Inr (Num 0))
   \<and> vectorDist [Num 1, Num 2] [Num 1] = ([''v1 and v2 must be the same length''], Inr (N NaN))"
  by (simp add: vectorDist_def console_assert_def arith_eval)

text \<open>On matrices of the same dimensions, without NaN, \<open>isEqual\<close> decides equality.\<close>

lemma strict_neq_no_NaN: "x \<noteq> N NaN \<Longrightarrow> strict_neq x y = (x \<noteq> y)"
  by (simp add: strict_neq_def strict_eq_def)

lemma row_differs_same_length:
  "length row1 = length row2 \<Longrightarrow> list_all (\<lambda>x. x \<noteq> N NaN) row1 \<Longrightarrow>
   row_differs row1 row2 = (row1 \<noteq> row2)"
  by (induction row1 row2 rule: list_induct2) (auto simp: strict_neq_no_NaN)

lemma isEqual_loop_same_shape:
  "length m1 = length m2 \<Longrightarrow> list_all2 (\<lambda>r1 r2. length r1 = length r2) m1 m2 \<Longrightarrow>
   list_all (list_all (\<lambda>x. x \<noteq> N NaN)) m1 \<Longrightarrow>
   isEqual_loop m1 m2 = Inr (m1 = m2)"
  by (induction m1 m2 rule: list_induct2) (auto simp: row_differs_same_length)

lemma isEqual_same_shape:
  assumes "map length m1 = map length m2" and "list_all (list_all (\<lambda>x. x \<noteq> N NaN)) m1"
  shows "snd (isEqual m1 m2) = Inr (m1 = m2)"
proof -
  from assms(1) have len: "length m1 = length m2" by (rule map_eq_imp_length_eq)
  have "list_all2 (=) (map length m1) (map length m2)"
    using assms(1) by (simp add: list_all2_eq)
  then have "list_all2 (\<lambda>r1 r2. length r1 = length r2) m1 m2"
    by (simp add: list_all2_map1 list_all2_map2)
  then show ?thesis using len assms(2) by (simp add: isEqual_def isEqual_loop_same_shape)
qed

text \<open>
  Claim C6 says that \<open>isEqual(m1, m2)\<close> is true only for matrices of the same
  dimensions. The code returns true for \<open>[[1]]\<close> and \<open>[[1, 2]]\<close>, writing nothing to the
  console, and for \<open>[]\<close> and \<open>[[1]]\<close>, after a line on the console.
\<close>

theorem isEqual_true_on_different_dimensions:
  "isEqual [[Num 1]] [[Num 1, Num 2]] = ([], Inr True)
   \<and> isEqual [] [[Num 1]] = ([''m1 and m2 should have the same length''], Inr True)"
  by (simp add: isEqual_def console_assert_def arith_eval)

section \<open>Properties of the profile learners\<close>

text \<open>\<open>cleanRatings\<close> returns every rating array as it is.\<close>

lemma cleanRatings_rows: "cleanRatings users = map (\<lambda>u. CRow (ratings (ratedNetwork u))) users"
  by (simp add: cleanRatings_def)

text \<open>
  Claim C2 says that \<open>cleanRatings\<close> replaces every \<open>null\<close> entry by 0. The code tests
  the rating array, not its entries, for \<open>null\<close>: for a user with the ratings
  \<open>[5, null, null]\<close> it returns \<open>[5, null, null]\<close>, and the learner computes on that.
\<close>

theorem cleanRatings_keeps_null:
  "cleanRatings [scenario_user] = [CRow [Some 5, None, None]]
   \<and> map as_rows (cleanRatings [scenario_user]) = [[Num 5, Null, Null]]"
  by (simp add: cleanRatings_def scenario_user_def scenario_network_def)

subsection \<open>The assignment step of K-Means\<close>

text \<open>On a point of finite numbers and \<open>null\<close> entries and a mean without NaN, of the
  same length, \<open>vectorDist\<close> returns a distance: no step of it gives NaN.\<close>

lemma is_distance_rd: "0 \<le> x \<Longrightarrow> is_distance (N (rd x))"
  using rd_nonneg [of x] by auto

lemma is_distance_not_nan: "is_distance d \<Longrightarrow> not_nan d"
  by (cases d rule: is_distance.cases) (simp_all add: not_nan_def)

lemma is_distance_square:
  assumes "numeric x" "numeric_or_inf y"
  shows "is_distance (jsquare (jsub x y))"
proof -
  from assms(1) obtain a where a: "toNumber x = Fin a"
    by (cases x rule: numeric.cases) simp_all
  from assms(2) have "toNumber y \<noteq> NaN"
    by (cases y rule: numeric_or_inf.cases) simp_all
  then have "toNumber (jsub x y) \<noteq> NaN"
    using a by (cases "toNumber y") (simp_all add: jsub_def nsub_def rd_not_NaN)
  then consider c where "toNumber (jsub x y) = Fin c" | "toNumber (jsub x y) = PosInf"
    | "toNumber (jsub x y) = NegInf"
    by (cases "toNumber (jsub x y)") auto
  then show ?thesis
  proof cases
    case 1
    then show ?thesis by (simp add: jsquare_def is_distance_rd)
  next
    case 2
    then show ?thesis by (simp add: jsquare_def inf_of_sign_def)
  next
    case 3
    then show ?thesis by (simp add: jsquare_def inf_of_sign_def)
  qed
qed

lemma is_distance_add: "is_distance a \<Longrightarrow> is_distance b \<Longrightarrow> is_distance (jadd a b)"
  by (cases a rule: is_distance.cases; cases b rule: is_distance.cases)
    (simp_all add: jadd_def is_distance_rd)

lemma is_distance_sqrt: "is_distance a \<Longrightarrow> is_distance (jsqrt a)"
  by (cases a rule: is_distance.cases) (simp_all add: jsqrt_def is_distance_rd)

lemma distSq_loop_distance:
  "length v1 = length v2 \<Longrightarrow> list_all numeric v1 \<Longrightarrow> list_all numeric_or_inf v2 \<Longrightarrow>
   is_distance acc \<Longrightarrow> is_distance (distSq_loop v1 v2 acc)"
proof (induction v1 v2 arbitrary: acc rule: list_induct2)
  case Nil
  then show ?case by simp
next
  case (Cons x xs y ys)
  then have "is_distance (jadd acc (jsquare (jsub x y)))"
    by (simp add: is_distance_add is_distance_square)
  with Cons show ?case by simp
qed

lemma vectorDist_distance:
  assumes "length v1 = length v2" "list_all numeric v1" "list_all numeric_or_inf v2"
  shows "\<exists>d. snd (vectorDist v1 v2) = Inr d \<and> is_distance d"
proof -
  have "is_distance (Num 0)" by simp
  from distSq_loop_distance [OF assms this] show ?thesis
    by (simp add: vectorDist_def is_distance_sqrt)
qed

text \<open>The \<open>reduce\<close> of the assignment keeps its accumulator only when it is strictly
  smaller, so it ends on the last minimum, when no distance is NaN.\<close>

lemma last_min_of_snoc_keep:
  "last_min_of ds i \<Longrightarrow> jlt (ds ! i) x \<Longrightarrow> last_min_of (ds @ [x]) i"
  by (auto simp: last_min_of_def nth_append list_all_iff dest: jlt_asym)

lemma last_min_of_snoc_new:
  assumes "last_min_of ds i" "\<not> jlt (ds ! i) x" "list_all not_nan ds" "not_nan x"
  shows "last_min_of (ds @ [x]) (length ds)"
proof -
  from assms(1) have il: "i < length ds" and mn: "\<forall>d\<in>set ds. \<not> jlt d (ds ! i)"
    by (auto simp: last_min_of_def list_all_iff)
  have ni: "not_nan (ds ! i)" using assms(3) il by (simp add: list_all_iff)
  have "\<not> jlt d x" if "d \<in> set ds" for d
  proof -
    have nd: "not_nan d" using assms(3) that by (simp add: list_all_iff)
    have "\<not> jlt d (ds ! i)" using mn that by simp
    then show ?thesis using jlt_neg_trans [OF nd ni assms(4)] assms(2) by blast
  qed
  then show ?thesis
    by (auto simp: last_min_of_def list_all_iff jlt_irrefl)
qed

lemma reduce_argmin:
  "ds \<noteq> [] \<Longrightarrow> list_all not_nan ds \<Longrightarrow>
   \<exists>i. reduce (\<lambda>(i1, d1) (i2, d2). if jlt d1 d2 then (i1, d1) else (i2, d2))
          (entries ds) = Inr (i, ds ! i) \<and> last_min_of ds i"
proof (induction ds rule: rev_induct)
  case Nil
  then show ?case by simp
next
  case (snoc x ds)
  then have nx: "not_nan x" and nds: "list_all not_nan ds" by simp_all
  show ?case
  proof (cases "ds = []")
    case True
    then show ?thesis by (simp add: reduce_def entries_def last_min_of_def jlt_irrefl)
  next
    case False
    with snoc.IH nds obtain i where
      i: "reduce (\<lambda>(i1, d1) (i2, d2). if jlt d1 d2 then (i1, d1) else (i2, d2))
            (entries ds) = Inr (i, ds ! i)" "last_min_of ds i" by blast
    have ne: "entries ds \<noteq> []" using False by (simp add: entries_def)
    have il: "i < length ds" using i(2) by (simp add: last_min_of_def)
    show ?thesis
    proof (cases "jlt (ds ! i) x")
      case True
      then show ?thesis
        using i il last_min_of_snoc_keep [OF i(2) True]
        by (auto simp: entries_snoc reduce_snoc [OF ne] nth_append intro!: exI [of _ i])
    next
      case False
      then show ?thesis
        using i il last_min_of_snoc_new [OF i(2) False nds nx]
        by (auto simp: entries_snoc reduce_snoc [OF ne] nth_append
            intro!: exI [of _ "length ds"])
    qed
  qed
qed

lemma map_err_distances:
  "list_all (\<lambda>x. \<exists>d. g x = Inr d \<and> is_distance d) xs \<Longrightarrow>
   \<exists>ds. map_err g xs = Inr ds \<and> length ds = length xs \<and> list_all is_distance ds"
proof (induction xs)
  case Nil
  then show ?case by simp
next
  case (Cons x xs)
  then obtain d ds where "g x = Inr d" "is_distance d" "map_err g xs = Inr ds"
    "length ds = length xs" "list_all is_distance ds" by auto
  then show ?case by simp
qed

text \<open>
  Claim C3, as stated: a point is assigned to the cluster whose mean is nearest, and
  among several nearest means to the one with the lowest index. It fails for the point
  \<open>[2]\<close> and the means \<open>[1]\<close> and \<open>[3]\<close>: both are at distance 1, and the point goes to
  cluster 1, the second of the two.
\<close>

theorem assign_first_min_counterexample:
  "map_err (\<lambda>v. snd (vectorDist [Num 2] v)) [[Num 1], [Num 3]] = Inr (map Num [1, 1])
   \<and> assign_cluster [Num 2] [[Num 1], [Num 3]] = Inr 1
   \<and> \<not> is_first_min [1, 1] 1 \<and> is_first_min [1, 1] 0"
  by (simp add: assign_cluster_def vectorDist_def reduce_def entries_def arith_eval upt_rec
      is_first_min_def)

text \<open>
  Claim C3, amended: in the assignment step, a point (a cleaned rating vector: finite
  numbers and \<open>null\<close> entries, which count as 0) is assigned to a cluster for which the
  distance that \<open>vectorDist\<close> computes, in double precision, between the point and the
  current mean is minimal among the computed distances, and among several such clusters
  to the one with the highest index (the last minimum of a scan from left to right).
  The means are as long as the point, hold no NaN, and there is at least one; the
  computed distances are then numbers that are not negative, or \<open>Infinity\<close>.
\<close>

theorem assign_cluster_last_min:
  assumes ne: "currentMeans \<noteq> []" and pt: "list_all numeric point"
    and ms: "list_all (\<lambda>m. length m = length point \<and> list_all numeric_or_inf m) currentMeans"
  shows "\<exists>ds idx. map_err (\<lambda>v. snd (vectorDist point v)) currentMeans = Inr ds
           \<and> length ds = length currentMeans \<and> list_all is_distance ds
           \<and> assign_cluster point currentMeans = Inr idx \<and> last_min_of ds idx"
proof -
  have "list_all (\<lambda>m. \<exists>d. snd (vectorDist point m) = Inr d \<and> is_distance d) currentMeans"
    using pt ms by (auto simp: list_all_iff intro!: vectorDist_distance)
  from map_err_distances [OF this] obtain ds where
    ds: "map_err (\<lambda>v. snd (vectorDist point v)) currentMeans = Inr ds"
        "length ds = length currentMeans" "list_all is_distance ds" by blast
  from ds(2) ne have "ds \<noteq> []" by auto
  moreover have "list_all not_nan ds"
    using ds(3) by (auto simp: list_all_iff is_distance_not_nan)
  ultimately obtain i where
    i: "reduce (\<lambda>(i1, d1) (i2, d2). if jlt d1 d2 then (i1, d1) else (i2, d2)) (entries ds)
          = Inr (i, ds ! i)" "last_min_of ds i"
    using reduce_argmin by blast
  have "assign_cluster point currentMeans = Inr i"
    by (simp only: assign_cluster_def ds(1) i sum.case fst_conv)
  with ds i(2) show ?thesis by blast
qed

theorem assign_cluster_last_min_witness:
  "[[Num 1], [Num 3]] \<noteq> [] \<and> list_all numeric [Num 2]
   \<and> list_all (\<lambda>m. length m = length [Num 2] \<and> list_all numeric_or_inf m) [[Num 1], [Num 3]]
   \<and> map_err (\<lambda>v. snd (vectorDist [Num 2] v)) [[Num 1], [Num 3]] = Inr [Num 1, Num 1]
   \<and> (\<exists>ds idx. map_err (\<lambda>v. snd (vectorDist [Num 2] v)) [[Num 1], [Num 3]] = Inr ds
           \<and> length ds = length [[Num 1], [Num 3]] \<and> list_all is_distance ds
           \<and> assign_cluster [Num 2] [[Num 1], [Num 3]] = Inr idx \<and> last_min_of ds idx)"
proof -
  have a: "[[Num 1], [Num 3]] \<noteq> ([] :: jsval list list)" by simp
  have b: "list_all numeric [Num 2]" by simp
  have c: "list_all (\<lambda>m. length m = length [Num 2] \<and> list_all numeric_or_inf m)
      [[Num 1], [Num 3]]"
    by simp
  have d: "map_err (\<lambda>v. snd (vectorDist [Num 2] v)) [[Num 1], [Num 3]] = Inr [Num 1, Num 1]"
    by (simp add: vectorDist_def arith_eval)
  show ?thesis using a b c d assign_cluster_last_min [OF a b c] by blast
qed

text \<open>
  The computed distance is not the Euclidean distance: for the point \<open>[1, 3]\<close> and the
  means \<open>[1, 1]\<close> and \<open>[3, 3 - 2^-51]\<close>, the second mean is farther than 2, the distance
  of the first, and both computed distances are 2; the point goes to cluster 1.
\<close>

lemma rd_exact_2_51: "rd (1 / 2 ^ 51) = Fin (1 / 2 ^ 51)"
  by (rule rd_exactI [of _ 1 "- 51"]) (simp_all add: powr_minus powr_realpow [symmetric] field_simps)

lemma rd_exact_2_102: "rd (1 / 2 ^ 102) = Fin (1 / 2 ^ 102)"
  by (rule rd_exactI [of _ 1 "- 102"]) (simp_all add: powr_minus powr_realpow [symmetric] field_simps)

lemma rd_absorbed: "rd (4 + 1 / 2 ^ 102) = Fin 4"
  by (subst rd_binade [of 2]) (simp_all add: round_even_def max_double_def Let_def powr_minus)

lemma assign_cluster_rounding:
  "map_err (\<lambda>v. snd (vectorDist [Num 1, Num 3] v)) [[Num 1, Num 1], [Num 3, Num (3 - 1 / 2 ^ 51)]]
     = Inr [Num 2, Num 2]
   \<and> assign_cluster [Num 1, Num 3] [[Num 1, Num 1], [Num 3, Num (3 - 1 / 2 ^ 51)]] = Inr 1
   \<and> euclidean_distance [1, 3] [1, 1] = 2
   \<and> euclidean_distance [1, 3] [1, 1] < euclidean_distance [1, 3] [3, 3 - 1 / 2 ^ 51]"
proof -
  have d: "map_err (\<lambda>v. snd (vectorDist [Num 1, Num 3] v))
      [[Num 1, Num 1], [Num 3, Num (3 - 1 / 2 ^ 51)]] = Inr [Num 2, Num 2]"
    by (simp add: vectorDist_def arith_eval rd_exact_2_51 [simplified]
        rd_exact_2_102 [simplified] rd_absorbed [simplified])
  have a: "assign_cluster [Num 1, Num 3] [[Num 1, Num 1], [Num 3, Num (3 - 1 / 2 ^ 51)]] = Inr 1"
    by (simp only: assign_cluster_def d) (simp add: reduce_def entries_def jlt_def upt_rec)
  have e1: "euclidean_distance [1, 3] [1, 1] = 2"
    by (simp add: euclidean_distance_def)
  have "sqrt 4 < sqrt (4 + (1 / 2 ^ 51)\<^sup>2)"
    by (rule real_sqrt_less_mono) simp
  then have e2: "2 < euclidean_distance [1, 3] [3, 3 - 1 / 2 ^ 51]"
    by (simp add: euclidean_distance_def)
  from d a e1 e2 show ?thesis by simp
qed

text \<open>
  The hypotheses of the amended claim hold in every round of a run on ratings that are
  finite doubles or \<open>null\<close>: the first means are rating vectors, and a round that returns
  gives as many means as it was given, each as long as the ratings and without NaN.
\<close>

lemma double_or_null_numeric: "double_or_null x \<Longrightarrow> numeric x"
  by (cases x rule: double_or_null.cases) simp_all

lemma numeric_numeric_or_inf: "numeric x \<Longrightarrow> numeric_or_inf x"
  by (cases x rule: numeric.cases) simp_all

lemma no_nan_step:
  assumes acc: "numeric_or_inf a" and v: "double_or_null v" and k: "1 \<le> k"
  shows "numeric_or_inf (jadd a (jdiv v (Num k)))"
proof -
  from v obtain b where b: "toNumber v = Fin b" "\<bar>b\<bar> \<le> max_double"
    by (cases v rule: double_or_null.cases) (simp_all add: max_double_def)
  have "\<bar>b / k\<bar> \<le> \<bar>b\<bar>"
  proof -
    have "\<bar>b\<bar> / k \<le> \<bar>b\<bar> / 1" using k by (intro divide_left_mono) simp_all
    then show ?thesis using k by simp
  qed
  with b(2) have "\<bar>b / k\<bar> \<le> max_double" by linarith
  from rd_finite [OF this] obtain r where r: "rd (b / k) = Fin r" by blast
  have q: "toNumber (jdiv v (Num k)) = Fin r" using b(1) k r by (simp add: jdiv_def)
  from acc have "toNumber a \<noteq> NaN" by (cases a rule: numeric_or_inf.cases) simp_all
  then have "nadd (toNumber a) (Fin r) \<noteq> NaN"
    by (cases "toNumber a") (simp_all add: rd_not_NaN)
  then show ?thesis
    unfolding jadd_def q by (cases "nadd (toNumber a) (Fin r)") simp_all
qed

lemma add_scaled_no_nan:
  "i + length vector \<le> length acc \<Longrightarrow> list_all numeric_or_inf acc \<Longrightarrow>
   list_all double_or_null vector \<Longrightarrow> 1 \<le> k \<Longrightarrow>
   length (add_scaled vector i (Num k) acc) = length acc \<and>
   list_all numeric_or_inf (add_scaled vector i (Num k) acc)"
proof (induction vector arbitrary: i acc)
  case Nil
  then show ?case by simp
next
  case (Cons v vector)
  let ?x = "jadd (getidx acc i) (jdiv v (Num k))"
  from Cons.prems have i: "i < length acc" by simp
  with Cons.prems(2) have "numeric_or_inf (acc ! i)" by (simp add: list_all_length)
  moreover from Cons.prems(3) have "double_or_null v" by simp
  ultimately have x: "numeric_or_inf ?x"
    using i Cons.prems(4) by (simp add: getidx_def no_nan_step)
  have acc': "setidx acc i ?x = acc[i := ?x]" using i by (simp add: setidx_def)
  have ok: "list_all numeric_or_inf (acc[i := ?x])"
    using Cons.prems(2) x by (auto simp: list_all_iff dest!: set_update_subset_insert [THEN subsetD])
  have "length (add_scaled vector (Suc i) (Num k) (acc[i := ?x])) = length (acc[i := ?x]) \<and>
        list_all numeric_or_inf (add_scaled vector (Suc i) (Num k) (acc[i := ?x]))"
    using Cons.prems by (intro Cons.IH ok) simp_all
  then show ?case by (simp add: acc')
qed

lemma foldl_add_scaled_no_nan:
  "length acc = n \<Longrightarrow> list_all numeric_or_inf acc \<Longrightarrow>
   list_all (\<lambda>v. length v = n \<and> list_all double_or_null v) vectors \<Longrightarrow> 1 \<le> k \<Longrightarrow>
   length (foldl (\<lambda>vectorMean vector. add_scaled vector 0 (Num k) vectorMean) acc vectors) = n \<and>
   list_all numeric_or_inf
     (foldl (\<lambda>vectorMean vector. add_scaled vector 0 (Num k) vectorMean) acc vectors)"
proof (induction vectors arbitrary: acc)
  case Nil
  then show ?case by simp
next
  case (Cons v vectors)
  from Cons.prems have "length (add_scaled v 0 (Num k) acc) = length acc \<and>
      list_all numeric_or_inf (add_scaled v 0 (Num k) acc)"
    by (intro add_scaled_no_nan) simp_all
  with Cons show ?case by simp
qed

lemma vectorMean_no_nan:
  assumes "vectors \<noteq> []" and "list_all (\<lambda>v. length v = n \<and> list_all double_or_null v) vectors"
  shows "\<exists>m. snd (vectorMean vectors) = Inr m \<and> length m = n \<and> list_all numeric_or_inf m"
proof -
  from assms obtain v0 rest where v: "vectors = v0 # rest" by (cases vectors) auto
  with assms(2) have n: "length v0 = n" by simp
  have k: "1 \<le> real (length vectors)" using v by simp
  have "length (replicate (length v0) (Num 0)) = n"
    "list_all numeric_or_inf (replicate (length v0) (Num 0))"
    using n by (simp_all add: list_all_iff)
  from foldl_add_scaled_no_nan [OF this assms(2) k]
  show ?thesis by (simp add: vectorMean_def v)
qed

lemma map_err_Inr:
  "map_err g xs = Inr ys \<Longrightarrow> list_all2 (\<lambda>x y. g x = Inr y) xs ys"
proof (induction xs arbitrary: ys)
  case Nil
  then show ?case by simp
next
  case (Cons x xs)
  then show ?case by (auto split: sum.splits)
qed

lemma kMeansIteration_shape:
  assumes rs: "list_all (\<lambda>r. length r = n \<and> list_all double_or_null r) ratings0"
    and it: "kMeansIteration ratings0 currentMeans = Inr newMeans"
  shows "length newMeans = length currentMeans \<and>
         list_all (\<lambda>m. length m = n \<and> list_all numeric_or_inf m) newMeans"
proof -
  from it obtain pa where
    pa: "map_err (\<lambda>point. case assign_cluster point currentMeans of
                            Inl e \<Rightarrow> Inl e | Inr idx \<Rightarrow> Inr (idx, point)) ratings0 = Inr pa"
    and nm: "map_err (\<lambda>i. snd (vectorMean (map snd (filter (\<lambda>p. fst p = i) pa))))
               [0..<length currentMeans] = Inr newMeans"
    by (auto simp: kMeansIteration_def Let_def split: if_splits list.splits sum.splits)
  from map_err_Inr [OF pa] have "list_all2 (\<lambda>x y. snd y = x) ratings0 pa"
    by (rule list_all2_mono) (auto split: sum.splits)
  then have "map snd pa = ratings0"
    by (induction rule: list_all2_induct) simp_all
  then have "list_all (\<lambda>r. length r = n \<and> list_all double_or_null r) (map snd pa)"
    using rs by simp
  then have pts: "\<forall>p\<in>set pa. length (snd p) = n \<and> list_all double_or_null (snd p)"
    by (simp add: list_all_iff)
  note all = map_err_Inr [OF nm]
  then have len: "length newMeans = length currentMeans"
    by (auto dest: list_all2_lengthD)
  have "\<forall>m\<in>set newMeans. length m = n \<and> list_all numeric_or_inf m"
  proof
    fix m assume "m \<in> set newMeans"
    then obtain j where j: "j < length newMeans" "m = newMeans ! j" by (auto simp: in_set_conv_nth)
    let ?cluster = "map snd (filter (\<lambda>p. fst p = [0..<length currentMeans] ! j) pa)"
    from all j have m: "snd (vectorMean ?cluster) = Inr m"
      by (auto simp: list_all2_conv_all_nth)
    then have ne: "?cluster \<noteq> []" by (auto simp: vectorMean_def)
    have "list_all (\<lambda>v. length v = n \<and> list_all double_or_null v) ?cluster"
      using pts by (auto simp: list_all_iff)
    from vectorMean_no_nan [OF ne this] m
    show "length m = n \<and> list_all numeric_or_inf m" by auto
  qed
  with len show ?thesis by (simp add: list_all_iff)
qed

subsection \<open>The similarity matrix of a mean vector\<close>

lemma length_set2: "length (set2 M i j v) = length M"
  by (simp add: set2_def)

lemma nth_set2:
  "i < length M \<Longrightarrow> j < length (M ! i) \<Longrightarrow> a < length M \<Longrightarrow>
   set2 M i j v ! a = (if a = i then (M ! i)[j := v] else M ! a)"
  by (simp add: set2_def setidx_def)

text \<open>One round of the inner loop writes the same value at \<open>(i, j)\<close> and \<open>(j, i)\<close>, off
  the diagonal.\<close>

lemma sim_inv_step:
  assumes inv: "sim_inv n M" and i: "i < n" and j: "j < n" and ne: "i \<noteq> j"
  shows "sim_inv n (set2 (set2 M i j v) j i v)"
proof -
  from inv have len: "length M = n" by (simp add: sim_inv_def)
  from inv len have rows: "\<And>a. a < n \<Longrightarrow> length (M ! a) = n"
    by (simp add: sim_inv_def)
  from inv have sym: "\<And>a b. a < n \<Longrightarrow> b < n \<Longrightarrow> M ! a ! b = M ! b ! a"
    and diag: "\<And>a. a < n \<Longrightarrow> M ! a ! a = Num 0"
    by (simp_all add: sim_inv_def)
  let ?M1 = "set2 M i j v"
  let ?M2 = "set2 ?M1 j i v"
  have l1: "length ?M1 = n" by (simp add: length_set2 len)
  have n1: "\<And>a. a < n \<Longrightarrow> ?M1 ! a = (if a = i then (M ! i)[j := v] else M ! a)"
    using i j len rows by (simp add: nth_set2)
  have r1: "\<And>a. a < n \<Longrightarrow> length (?M1 ! a) = n"
    using rows i by (simp add: n1)
  have l2: "length ?M2 = n" by (simp add: length_set2 len)
  have n2: "\<And>a. a < n \<Longrightarrow> ?M2 ! a = (if a = j then (?M1 ! j)[i := v] else ?M1 ! a)"
    using i j l1 r1 by (simp add: nth_set2)
  have n2': "\<And>a. a < n \<Longrightarrow> ?M2 ! a =
      (if a = j then (M ! j)[i := v] else if a = i then (M ! i)[j := v] else M ! a)"
    using ne j by (simp add: n2 n1)
  have ent: "\<And>a b. a < n \<Longrightarrow> b < n \<Longrightarrow> ?M2 ! a ! b =
      (if (a = i \<and> b = j) \<or> (a = j \<and> b = i) then v else M ! a ! b)"
    using rows i j ne by (auto simp: n2' nth_list_update)
  have r2: "\<forall>row\<in>set ?M2. length row = n"
  proof
    fix row assume "row \<in> set ?M2"
    then obtain a where a: "a < n" "row = ?M2 ! a" using l2 by (auto simp: in_set_conv_nth)
    then show "length row = n" using rows i j by (simp add: n2')
  qed
  have s2: "\<forall>a<n. \<forall>b<n. ?M2 ! a ! b = ?M2 ! b ! a"
    using sym by (auto simp: ent)
  have d2: "\<forall>a<n. ?M2 ! a ! a = Num 0"
    using diag ne by (auto simp: ent)
  show ?thesis unfolding sim_inv_def using l2 r2 s2 d2 by blast
qed

lemma sim_inv_inner:
  "sim_inv n M \<Longrightarrow> i < n \<Longrightarrow> \<forall>j\<in>set js. j < n \<and> j \<noteq> i \<Longrightarrow>
   sim_inv n (fold (\<lambda>j similarity. let simVal = f i j
                                     in set2 (set2 similarity i j simVal) j i simVal) js M)"
proof (induction js arbitrary: M)
  case Nil
  then show ?case by simp
next
  case (Cons j js)
  then have "sim_inv n (set2 (set2 M i j (f i j)) j i (f i j))"
    by (auto intro!: sim_inv_step)
  with Cons show ?case by (simp add: Let_def)
qed

lemma sim_inv_outer:
  "sim_inv n M \<Longrightarrow> \<forall>i\<in>set is. i < n \<Longrightarrow>
   sim_inv n (fold (\<lambda>i similarity.
       fold (\<lambda>j similarity. let simVal = f i j
                             in set2 (set2 similarity i j simVal) j i simVal)
         [i + 1..<n] similarity) is M)"
proof (induction "is" arbitrary: M)
  case Nil
  then show ?case by simp
next
  case (Cons i "is")
  then have "sim_inv n (fold (\<lambda>j similarity. let simVal = f i j
                                in set2 (set2 similarity i j simVal) j i simVal)
         [i + 1..<n] M)"
    by (auto intro!: sim_inv_inner)
  with Cons show ?case by simp
qed

lemma sim_inv_init: "sim_inv n (twoDimArray n n (Num 0))"
  by (simp add: sim_inv_def twoDimArray_def)

lemma sim_inv_similarity_matrix:
  "sim_inv (length mv) (meanVectorsToSimilarityMatrix learner mv)"
proof -
  have "\<forall>i\<in>set [0..<length mv - 1]. i < length mv" by auto
  from sim_inv_outer [OF sim_inv_init this,
      of "\<lambda>i j. similarityFunction learner (getidx mv i) (getidx mv j)"]
  show ?thesis
    unfolding meanVectorsToSimilarityMatrix_def Let_def .
qed

lemma sim_inv_symmetric_zero_diag: "sim_inv n M \<Longrightarrow> symmetric_zero_diag M"
  by (auto simp: sim_inv_def symmetric_zero_diag_def list_all_iff)

lemma similarity_matrix_ok:
  "symmetric_zero_diag (meanVectorsToSimilarityMatrix learner mv)"
  "length (meanVectorsToSimilarityMatrix learner mv) = length mv"
  using sim_inv_similarity_matrix [of mv learner] sim_inv_symmetric_zero_diag
  by (auto simp: sim_inv_def)

lemma average_profiles:
  "average_learnProfile learner users = Inr profiles \<Longrightarrow>
   list_all (\<lambda>p. symmetric_zero_diag (similarityNetwork p)) profiles"
  by (auto simp: average_learnProfile_def Let_def similarity_matrix_ok
      split: list.splits if_splits sum.splits)

lemma kmeans_profiles:
  "kmeans_learnProfile learner users parameters us = Some (Inr profiles) \<Longrightarrow>
   list_all (\<lambda>p. symmetric_zero_diag (similarityNetwork p)) profiles"
  by (auto simp: kmeans_learnProfile_def Let_def similarity_matrix_ok list_all_iff
      split: list.splits if_splits sum.splits option.splits)

text \<open>The double nearest to one tenth.\<close>

lemma rd_tenth: "rd (1 / 10) = Fin (3602879701896397 / 2 ^ 55)"
  by (subst rd_binade [of "- 4"]) (simp_all add: round_even_def max_double_def Let_def powr_minus)

lemma default_similarity_equal: "default_similarityFunction (Num r) (Num r) = Num 1"
  by (simp add: default_similarityFunction_def jsquare_def jsub_def nsub_def rd_tenth rd_0 rd_small)

subsection \<open>One user, one cluster: the learners on the scenario\<close>

lemma scenario_cleaned: "map as_rows (cleanRatings [scenario_user]) = [[Num 5, Null, Null]]"
  by (simp add: cleanRatings_def scenario_user_def scenario_network_def)

lemma scenario_mean: "snd (vectorMean [[Num 5, Null, Null]]) = Inr [Num 5, Num 0, Num 0]"
  by (simp add: vectorMean_def arith_eval)

lemma scenario_average:
  "average_learnProfile default_learner [scenario_user] =
   Inr [\<lparr>similarityNetwork =
          meanVectorsToSimilarityMatrix default_learner [Num 5, Num 0, Num 0]\<rparr>]"
  by (simp add: average_learnProfile_def scenario_cleaned scenario_mean)

lemma scenario_iteration_1:
  "kMeansIteration [[Num 5, Null, Null]] [[Num 5, Null, Null]] = Inr [[Num 5, Num 0, Num 0]]"
  by (simp add: kMeansIteration_def isRectangular_def assign_cluster_def vectorDist_def
      reduce_def entries_def scenario_mean)

lemma scenario_iteration_2:
  "kMeansIteration [[Num 5, Null, Null]] [[Num 5, Num 0, Num 0]] = Inr [[Num 5, Num 0, Num 0]]"
  by (simp add: kMeansIteration_def isRectangular_def assign_cluster_def vectorDist_def
      reduce_def entries_def scenario_mean)

text \<open>The run takes three comparisons: the first means still hold the \<open>null\<close> entries,
  which differ from the zeros of the recomputed means.\<close>

lemma scenario_run:
  "runKMeans [[Num 5, Null, Null]] [[Num 5, Null, Null]] 1 = Some (Inr [[Num 5, Num 0, Num 0]])"
proof -
  have eq1: "snd (isEqual [[Num 5, Null, Null]] [[Undefined, Undefined, Undefined]]) = Inr False"
    by (simp add: isEqual_def arith_eval)
  have eq2: "snd (isEqual [[Num 5, Num 0, Num 0]] [[Num 5, Null, Null]]) = Inr False"
    by (simp add: isEqual_def arith_eval)
  have eq3: "snd (isEqual [[Num 5, Num 0, Num 0]] [[Num 5, Num 0, Num 0]]) = Inr True"
    by (simp add: isEqual_def arith_eval)
  have 3: "kMeans_loop [[Num 5, Null, Null]] [[Num 5, Num 0, Num 0]] [[Num 5, Num 0, Num 0]]
            = Some (Inr [[Num 5, Num 0, Num 0]])"
    by (subst kMeans_loop.simps) (simp add: eq3)
  have 2: "kMeans_loop [[Num 5, Null, Null]] [[Num 5, Num 0, Num 0]] [[Num 5, Null, Null]]
            = Some (Inr [[Num 5, Num 0, Num 0]])"
    by (subst kMeans_loop.simps) (simp add: eq2 scenario_iteration_2 3)
  have 1: "kMeans_loop [[Num 5, Null, Null]] [[Num 5, Null, Null]]
             [[Undefined, Undefined, Undefined]]
            = Some (Inr [[Num 5, Num 0, Num 0]])"
    by (subst kMeans_loop.simps) (simp add: eq1 scenario_iteration_1 2)
  show ?thesis
    by (simp add: runKMeans_def isRectangular_def twoDimArray_def 1 numeral_3_eq_3)
qed

lemma scenario_kmeans:
  "kmeans_learnProfile default_learner [scenario_user] (Some 1) [0] =
   Some (Inr [\<lparr>similarityNetwork =
                meanVectorsToSimilarityMatrix default_learner [Num 5, Num 0, Num 0]\<rparr>])"
proof -
  have init: "initKMeans [[Num 5, Null, Null]] 1 [0] = Some (Inr [[Num 5, Null, Null]])"
    by (simp add: initKMeans_def isRectangular_def rd_0)
  show ?thesis
    by (simp add: kmeans_learnProfile_def scenario_cleaned init scenario_run)
qed

text \<open>
  Claim C9. For every mean vector, the matrix of \<open>meanVectorsToSimilarityMatrix\<close> is
  square, symmetric and has the number 0 on its whole diagonal, whatever the similarity
  function is. So every profile that \<open>AverageLearner.learnProfile\<close> or
  \<open>KMeansLearner.learnProfile\<close> returns has 0 on its diagonal, and not the 1 that the
  default similarity function gives for two equal ratings.
\<close>

theorem similarity_matrix_symmetric_zero_diagonal:
  "symmetric_zero_diag (meanVectorsToSimilarityMatrix learner meanVector)
   \<and> length (meanVectorsToSimilarityMatrix learner meanVector) = length meanVector
   \<and> (average_learnProfile learner users = Inr profiles
        \<longrightarrow> list_all (\<lambda>p. symmetric_zero_diag (similarityNetwork p)) profiles)
   \<and> (kmeans_learnProfile learner users parameters us = Some (Inr profiles')
        \<longrightarrow> list_all (\<lambda>p. symmetric_zero_diag (similarityNetwork p)) profiles')
   \<and> default_similarityFunction (Num r) (Num r) = Num 1"
  using similarity_matrix_ok [of learner meanVector] average_profiles kmeans_profiles
    default_similarity_equal
  by blast

theorem similarity_matrix_symmetric_zero_diagonal_witness:
  "meanVectorsToSimilarityMatrix default_learner [Num 5, Num 3] =
     [[Num 0, default_similarityFunction (Num 5) (Num 3)],
      [default_similarityFunction (Num 5) (Num 3), Num 0]]
   \<and> symmetric_zero_diag (meanVectorsToSimilarityMatrix default_learner [Num 5, Num 3])
   \<and> average_learnProfile default_learner [scenario_user] =
       Inr [\<lparr>similarityNetwork =
              meanVectorsToSimilarityMatrix default_learner [Num 5, Num 0, Num 0]\<rparr>]
   \<and> kmeans_learnProfile default_learner [scenario_user] (Some 1) [0] =
       Some (Inr [\<lparr>similarityNetwork =
              meanVectorsToSimilarityMatrix default_learner [Num 5, Num 0, Num 0]\<rparr>])
   \<and> list_all (\<lambda>p. symmetric_zero_diag (similarityNetwork p))
       [\<lparr>similarityNetwork =
              meanVectorsToSimilarityMatrix default_learner [Num 5, Num 0, Num 0]\<rparr>]
   \<and> default_similarityFunction (Num 5) (Num 5) = Num 1"
proof -
  have mv: "meanVectorsToSimilarityMatrix default_learner [Num 5, Num 3] =
     [[Num 0, default_similarityFunction (Num 5) (Num 3)],
      [default_similarityFunction (Num 5) (Num 3), Num 0]]"
    by (simp add: meanVectorsToSimilarityMatrix_def twoDimArray_def set2_def default_learner_def
        getidx_def setidx_def numeral_2_eq_2 Let_def)
  from similarity_matrix_symmetric_zero_diagonal
    [of default_learner "[Num 5, Num 3]" "[scenario_user]"
      "[\<lparr>similarityNetwork =
              meanVectorsToSimilarityMatrix default_learner [Num 5, Num 0, Num 0]\<rparr>]"
      "Some 1" "[0]"
      "[\<lparr>similarityNetwork =
              meanVectorsToSimilarityMatrix default_learner [Num 5, Num 0, Num 0]\<rparr>]" 5]
  show ?thesis
    using mv scenario_average scenario_kmeans by simp
qed

section \<open>Properties of the algorithms on the heap\<close>

subsection \<open>A call appends to the heap and writes only to what it appended\<close>

lemma alloc_rows_eq:
  "alloc_rows h rows = (h @ map NumArray rows, [length h..<length h + length rows])"
proof (induction rows arbitrary: h)
  case Nil
  then show ?case by simp
next
  case (Cons row rows)
  have "[length h..<length h + length (row # rows)]
      = length h # [Suc (length h)..<Suc (length h) + length rows]"
    by (subst upt_rec) simp
  then show ?case by (simp add: Cons alloc_def del: upt_Suc)
qed

lemma prefix_getRecommendationVector_h:
  assumes "getRecommendationVector_h alg h a = (h', res)"
  shows "prefix h h'" and "res = Inr rv \<Longrightarrow> length h \<le> rv"
  using assms
  by (auto simp: getRecommendationVector_h_def cloneDeep_def alloc_matrix_def alloc_def alloc_rows_eq
      Let_def split: option.splits sum.splits prod.splits)

lemma prefix_alloc:
  assumes "prefix h0 h" and "alloc h ob = (h', a)"
  shows "prefix h0 h'" and "length h0 \<le> a"
  using assms by (auto simp: alloc_def prefix_def)

lemma prefix_store: "prefix h0 h \<Longrightarrow> length h0 \<le> a \<Longrightarrow> prefix h0 (store h a ob)"
  by (auto simp: store_def prefix_def list_update_append)

lemma prefix_write_idx: "prefix h0 h \<Longrightarrow> length h0 \<le> a \<Longrightarrow> prefix h0 (write_idx h a i v)"
  by (simp add: write_idx_def prefix_store)

lemma prefix_foldl:
  "(\<And>h x. prefix h0 h \<Longrightarrow> prefix h0 (step h x)) \<Longrightarrow> prefix h0 h \<Longrightarrow> prefix h0 (foldl step h xs)"
  by (induction xs arbitrary: h) simp_all

lemma prefix_foldl_fst:
  "(\<And>s x. prefix h0 (fst s) \<Longrightarrow> prefix h0 (fst (step s x))) \<Longrightarrow> prefix h0 (fst s)
   \<Longrightarrow> prefix h0 (fst (foldl step s xs))"
  by (induction xs arbitrary: s) simp_all

lemma prefix_remove_rated_h:
  "prefix h0 h \<Longrightarrow> length h0 \<le> rv \<Longrightarrow> prefix h0 (remove_rated_h h rv minVal ents)"
  unfolding remove_rated_h_def
  by (rule prefix_foldl) (auto simp: prefix_write_idx)

lemma prefix_zero_rated_h:
  "prefix h0 h \<Longrightarrow> length h0 \<le> rv \<Longrightarrow> prefix h0 (zero_rated_h h rv ents)"
  unfolding zero_rated_h_def
  by (rule prefix_foldl) (auto simp: prefix_write_idx)

lemma prefix_accumulate_h:
  "prefix h0 h \<Longrightarrow> length h0 \<le> cdist \<Longrightarrow> prefix h0 (accumulate_h h cdist distr)"
  unfolding accumulate_h_def
  by (rule prefix_foldl_fst) (auto simp: prefix_store split: prod.splits)

text \<open>The greedy algorithm writes to the score vector, which
  \<open>getRecommendationVector\<close> has just allocated.\<close>

lemma prefix_greedy_recommend_h: "prefix h (fst (greedy_recommend_h alg h a))"
proof -
  obtain h1 res where g: "getRecommendationVector_h alg h a = (h1, res)"
    by (cases "getRecommendationVector_h alg h a")
  have p1: "prefix h h1" using prefix_getRecommendationVector_h(1) [OF g] .
  show ?thesis
  proof (cases res)
    case (Inl e)
    with g p1 show ?thesis by (simp add: greedy_recommend_h_def)
  next
    case (Inr rv)
    have fresh: "length h \<le> rv" using prefix_getRecommendationVector_h(2) [OF g Inr] .
    show ?thesis
    proof (cases "reduce (\<lambda>e1 e2. if jlt e1 e2 then e1 else e2) (nums_at h1 rv)")
      case (Inl e)
      with g \<open>res = Inr rv\<close> p1 show ?thesis by (simp add: greedy_recommend_h_def)
    next
      case minVal: (Inr minVal)
      show ?thesis
      proof (cases "rated_network_at h1 a")
        case None
        with g \<open>res = Inr rv\<close> minVal p1 show ?thesis by (simp add: greedy_recommend_h_def)
      next
        case (Some rnet)
        obtain h2 ents where 2: "alloc h1 (PairArray (entries (nums_at h1 (obj_ratings rnet)))) = (h2, ents)"
          by (cases "alloc h1 (PairArray (entries (nums_at h1 (obj_ratings rnet))))")
        define h3 where "h3 = remove_rated_h h2 rv minVal (pairs_at h2 ents)"
        obtain h4 ents2 where 4: "alloc h3 (PairArray (entries (nums_at h3 rv))) = (h4, ents2)"
          by (cases "alloc h3 (PairArray (entries (nums_at h3 rv)))")
        have p2: "prefix h h2" using prefix_alloc(1) [OF p1 2] .
        have p3: "prefix h h3" unfolding h3_def using prefix_remove_rated_h [OF p2 fresh] .
        have p4: "prefix h h4" using prefix_alloc(1) [OF p3 4] .
        have "fst (greedy_recommend_h alg h a) = h4"
          using g \<open>res = Inr rv\<close> minVal Some 2 4
          by (simp add: greedy_recommend_h_def h3_def Let_def split: sum.splits)
        with p4 show ?thesis by simp
      qed
    qed
  qed
qed

text \<open>The probabilistic algorithm writes to the score vector, sorts the array of
  entries that it made, and pushes onto its own \<open>cdist\<close>.\<close>

lemma prefix_probabilistic_recommend_h: "prefix h (fst (probabilistic_recommend_h alg h a u))"
proof -
  obtain h1 res where g: "getRecommendationVector_h alg h a = (h1, res)"
    by (cases "getRecommendationVector_h alg h a")
  have p1: "prefix h h1" using prefix_getRecommendationVector_h(1) [OF g] .
  show ?thesis
  proof (cases res)
    case (Inl e)
    with g p1 show ?thesis by (simp add: probabilistic_recommend_h_def)
  next
    case (Inr rv)
    have fresh: "length h \<le> rv" using prefix_getRecommendationVector_h(2) [OF g Inr] .
    show ?thesis
    proof (cases "rated_network_at h1 a")
      case None
      with g \<open>res = Inr rv\<close> p1 show ?thesis by (simp add: probabilistic_recommend_h_def)
    next
      case (Some rnet)
      define h2 where "h2 = zero_rated_h h1 rv (entries (nums_at h1 (obj_ratings rnet)))"
      have p2: "prefix h h2" unfolding h2_def using prefix_zero_rated_h [OF p1 fresh] .
      show ?thesis
      proof (cases "normalize_scores (nums_at h2 rv)")
        case (Inl e)
        then have "fst (probabilistic_recommend_h alg h a u) = h2"
          using g \<open>res = Inr rv\<close> Some
          by (simp add: probabilistic_recommend_h_def h2_def Let_def)
        with p2 show ?thesis by simp
      next
        case (Inr probabilities)
        obtain h3 rv2 where 3: "alloc h2 (NumArray probabilities) = (h3, rv2)"
          by (cases "alloc h2 (NumArray probabilities)")
        obtain h4 distr where 4: "alloc h3 (PairArray (entries (nums_at h3 rv2))) = (h4, distr)"
          by (cases "alloc h3 (PairArray (entries (nums_at h3 rv2)))")
        define h5 where "h5 = store h4 distr (PairArray (sort_pairs (pairs_at h4 distr)))"
        obtain h6 cdist where 6: "alloc h5 (PairArray []) = (h6, cdist)"
          by (cases "alloc h5 (PairArray [])")
        define h7 where "h7 = accumulate_h h6 cdist (pairs_at h6 distr)"
        have p3: "prefix h h3" using prefix_alloc(1) [OF p2 3] .
        have p4: "prefix h h4" and f4: "length h \<le> distr" using prefix_alloc [OF p3 4] by auto
        have p5: "prefix h h5" unfolding h5_def using prefix_store [OF p4 f4] .
        have p6: "prefix h h6" and f6: "length h \<le> cdist" using prefix_alloc [OF p5 6] by auto
        have p7: "prefix h h7" unfolding h7_def using prefix_accumulate_h [OF p6 f6] .
        have "fst (probabilistic_recommend_h alg h a u) = h7"
          using g \<open>res = Inr rv\<close> Some Inr 3 4 6
          by (simp add: probabilistic_recommend_h_def h2_def h5_def h7_def Let_def)
        with p7 show ?thesis by simp
      qed
    qed
  qed
qed

subsection \<open>What was stored reads the same on a longer heap\<close>

lemma nums_at_append: "a < length h \<Longrightarrow> nums_at (h @ ext) a = nums_at h a"
  by (simp add: nums_at_def nth_append)

lemma refs_at_append: "a < length h \<Longrightarrow> refs_at (h @ ext) a = refs_at h a"
  by (simp add: refs_at_def nth_append)

lemma rated_network_at_append:
  "a < length h \<Longrightarrow> rated_network_at (h @ ext) a = rated_network_at h a"
  by (simp add: rated_network_at_def nth_append)

lemma is_nums_append: "is_nums h a \<Longrightarrow> is_nums (h @ ext) a"
  by (auto simp: is_nums_def nth_append)

lemma is_refs_append: "is_refs h a \<Longrightarrow> is_refs (h @ ext) a"
  by (auto simp: is_refs_def nth_append)

lemma matrix_at_append:
  assumes "is_refs h a" and "list_all (is_nums h) (refs_at h a)"
  shows "matrix_at (h @ ext) a = matrix_at h a"
proof -
  from assms(1) have a: "a < length h" by (simp add: is_refs_def)
  have "map (nums_at (h @ ext)) (refs_at h a) = map (nums_at h) (refs_at h a)"
    using assms(2) by (auto simp: list_all_iff is_nums_def nums_at_append)
  then show ?thesis by (simp add: matrix_at_def refs_at_append [OF a])
qed

lemma load_rated_network_append:
  assumes "load_rated_network h a = Some rn"
  shows "load_rated_network (h @ ext) a = Some rn"
proof -
  from assms obtain r where r: "rated_network_at h a = Some r"
    by (auto simp: load_rated_network_def split: option.splits)
  then have a: "a < length h" by (auto simp: rated_network_at_def split: if_splits)
  from assms r have ok: "is_refs h (obj_network r)" "list_all (is_nums h) (refs_at h (obj_network r))"
    "list_all (list_all is_fin) (matrix_at h (obj_network r))"
    "is_nums h (obj_ratings r)" "list_all numeric (nums_at h (obj_ratings r))"
    and rn: "rn = \<lparr>nNodes = obj_nNodes r,
                    network = map (map to_real) (matrix_at h (obj_network r)),
                    ratings = map to_rating (nums_at h (obj_ratings r)),
                    lower = obj_lower r, upper = obj_upper r\<rparr>"
    by (auto simp: load_rated_network_def split: if_splits)
  have 1: "rated_network_at (h @ ext) a = Some r" using r a by (simp add: rated_network_at_append)
  have 2: "refs_at (h @ ext) (obj_network r) = refs_at h (obj_network r)"
    using ok(1) by (simp add: is_refs_def refs_at_append)
  have 3: "matrix_at (h @ ext) (obj_network r) = matrix_at h (obj_network r)"
    using matrix_at_append [OF ok(1) ok(2)] .
  have 4: "nums_at (h @ ext) (obj_ratings r) = nums_at h (obj_ratings r)"
    using ok(4) by (simp add: is_nums_def nums_at_append)
  have 5: "list_all (is_nums (h @ ext)) (refs_at h (obj_network r))"
    using ok(2) by (auto simp: list_all_iff is_nums_append)
  show ?thesis
    using ok 5 by (simp add: load_rated_network_def 1 2 3 4 rn is_refs_append is_nums_append)
qed

lemma load_rated_network_prefix:
  "prefix h h' \<Longrightarrow> load_rated_network h a = Some rn \<Longrightarrow> load_rated_network h' a = Some rn"
  by (auto simp: prefix_def load_rated_network_append)

subsection \<open>The greedy algorithm returns on the heap what it returns on values\<close>

lemma pairs_at_append: "a < length h \<Longrightarrow> pairs_at (h @ ext) a = pairs_at h a"
  by (simp add: pairs_at_def nth_append)

lemma alloc_nums_props:
  assumes "alloc h (NumArray xs) = (h', a)"
  shows "h' = h @ [NumArray xs]" and "a = length h" and "nums_at h' a = xs" and "is_nums h' a"
  using assms by (auto simp: alloc_def nums_at_def is_nums_def)

lemma alloc_pairs_props:
  assumes "alloc h (PairArray xs) = (h', a)"
  shows "h' = h @ [PairArray xs]" and "a = length h" and "pairs_at h' a = xs"
  using assms by (auto simp: alloc_def pairs_at_def)

lemma nums_at_fresh_row:
  "i < length rows \<Longrightarrow> nums_at (h @ map NumArray rows @ ext) (length h + i) = rows ! i"
  by (simp add: nums_at_def nth_append)

lemma is_nums_fresh_row:
  "i < length rows \<Longrightarrow> is_nums (h @ map NumArray rows @ ext) (length h + i)"
  by (simp add: is_nums_def nth_append)

lemma alloc_matrix_props:
  assumes "alloc_matrix h rows = (h', a)"
  shows "prefix h h'" and "matrix_at h' a = rows" and "is_refs h' a"
    and "list_all (is_nums h') (refs_at h' a)"
proof -
  let ?refs = "[length h..<length h + length rows]"
  from assms have h': "h' = h @ map NumArray rows @ [RefArray ?refs]"
    and a: "a = length h + length rows"
    by (auto simp: alloc_matrix_def alloc_rows_eq alloc_def)
  show "prefix h h'" by (simp add: h')
  have refs: "refs_at h' a = ?refs" by (simp add: refs_at_def h' a nth_append)
  show "is_refs h' a" by (simp add: is_refs_def h' a nth_append)
  have "map (nums_at h') ?refs = rows"
  proof (rule nth_equalityI)
    show "length (map (nums_at h') ?refs) = length rows" by simp
  next
    fix i assume "i < length (map (nums_at h') ?refs)"
    then have i: "i < length rows" by simp
    then show "map (nums_at h') ?refs ! i = rows ! i"
      using nums_at_fresh_row [OF i, of h "[RefArray ?refs]"] by (simp add: h')
  qed
  then show "matrix_at h' a = rows" by (simp add: matrix_at_def refs)
  have "\<forall>b\<in>set ?refs. is_nums h' b"
  proof
    fix b assume "b \<in> set ?refs"
    then obtain i where "b = length h + i" "i < length rows"
      by (auto simp: le_iff_add)
    then show "is_nums h' b"
      using is_nums_fresh_row [of i rows h "[RefArray ?refs]"] by (simp add: h')
  qed
  then show "list_all (is_nums h') (refs_at h' a)" by (simp add: refs list_all_iff)
qed

lemma prefix_appendE: "prefix h h' \<Longrightarrow> \<exists>ext. h' = h @ ext"
  by (auto simp: prefix_def)

lemma nums_at_prefix: "prefix h h' \<Longrightarrow> a < length h \<Longrightarrow> nums_at h' a = nums_at h a"
  by (auto simp: prefix_def nums_at_append)

lemma is_nums_prefix: "prefix h h' \<Longrightarrow> is_nums h a \<Longrightarrow> is_nums h' a"
  by (auto simp: prefix_def is_nums_append)

lemma rated_network_at_prefix:
  "prefix h h' \<Longrightarrow> a < length h \<Longrightarrow> rated_network_at h' a = rated_network_at h a"
  by (auto simp: prefix_def rated_network_at_append)

lemma matrix_at_prefix:
  "prefix h h' \<Longrightarrow> is_refs h a \<Longrightarrow> list_all (is_nums h) (refs_at h a) \<Longrightarrow>
   matrix_at h' a = matrix_at h a"
  by (auto simp: prefix_def matrix_at_append)

lemma cloneDeep_props:
  assumes "cloneDeep h r = (h1, c)"
  shows "prefix h h1"
    and "\<exists>r'. rated_network_at h1 c = Some r' \<and> obj_lower r' = obj_lower r \<and> obj_upper r' = obj_upper r
           \<and> matrix_at h1 (obj_network r') = matrix_at h (obj_network r)
           \<and> nums_at h1 (obj_ratings r') = nums_at h (obj_ratings r)
           \<and> is_refs h1 (obj_network r') \<and> list_all (is_nums h1) (refs_at h1 (obj_network r'))
           \<and> is_nums h1 (obj_ratings r')"
proof -
  obtain ha nw where 1: "alloc_matrix h (matrix_at h (obj_network r)) = (ha, nw)"
    by (cases "alloc_matrix h (matrix_at h (obj_network r))")
  obtain hb rs where 2: "alloc ha (NumArray (nums_at h (obj_ratings r))) = (hb, rs)"
    by (cases "alloc ha (NumArray (nums_at h (obj_ratings r)))")
  let ?r' = "r\<lparr>obj_network := nw, obj_ratings := rs\<rparr>"
  from assms 1 2 have 3: "alloc hb (RatedNetworkObj ?r') = (h1, c)"
    by (simp add: cloneDeep_def)
  note m = alloc_matrix_props [OF 1]
  note n = alloc_nums_props [OF 2]
  from 3 have h1: "h1 = hb @ [RatedNetworkObj ?r']" and c: "c = length hb"
    by (auto simp: alloc_def)
  have pab: "prefix ha hb" by (simp add: n(1))
  have pb1: "prefix hb h1" by (simp add: h1)
  have pa1: "prefix ha h1" using pab pb1 by (rule prefix_order.trans)
  show "prefix h h1" using m(1) pa1 by (rule prefix_order.trans)
  have nwlt: "nw < length ha" using m(3) by (simp add: is_refs_def)
  have rslt: "rs < length hb" using n(4) by (simp add: is_nums_def)
  have a: "rated_network_at h1 c = Some ?r'" by (simp add: rated_network_at_def h1 c)
  have b: "matrix_at h1 nw = matrix_at h (obj_network r)"
    using matrix_at_prefix [OF pa1 m(3) m(4)] m(2) by simp
  have d: "nums_at h1 rs = nums_at h (obj_ratings r)"
    using nums_at_prefix [OF pb1 rslt] n(3) by simp
  have e: "is_refs h1 nw" using m(3) pa1 by (auto simp: prefix_def is_refs_append)
  have f: "list_all (is_nums h1) (refs_at h1 nw)"
  proof -
    from pa1 obtain ext where ext: "h1 = ha @ ext" by (auto simp: prefix_def)
    have "refs_at h1 nw = refs_at ha nw" using nwlt by (simp add: ext refs_at_append)
    then show ?thesis using m(4) by (auto simp: list_all_iff ext is_nums_append)
  qed
  have g: "is_nums h1 rs" using is_nums_prefix [OF pb1 n(4)] .
  show "\<exists>r'. rated_network_at h1 c = Some r' \<and> obj_lower r' = obj_lower r \<and> obj_upper r' = obj_upper r
           \<and> matrix_at h1 (obj_network r') = matrix_at h (obj_network r)
           \<and> nums_at h1 (obj_ratings r') = nums_at h (obj_ratings r)
           \<and> is_refs h1 (obj_network r') \<and> list_all (is_nums h1) (refs_at h1 (obj_network r'))
           \<and> is_nums h1 (obj_ratings r')"
    using a b d e f g by (intro exI [of _ ?r']) simp
qed

lemma getRecommendationVector_h_result:
  assumes r: "rated_network_at h a = Some r"
    and G: "getRecommendationVector_h alg h a = (h', res)"
  shows "case recommendation_vector_of alg (matrix_at h (obj_network r)) (nums_at h (obj_ratings r))
                (obj_lower r) (obj_upper r) of
           Inl e \<Rightarrow> res = Inl e
         | Inr v \<Rightarrow> \<exists>rv. res = Inr rv \<and> nums_at h' rv = v \<and> is_nums h' rv"
proof -
  obtain h1 c where 1: "cloneDeep h r = (h1, c)" by (cases "cloneDeep h r")
  from cloneDeep_props(2) [OF 1] obtain r' where
    r': "rated_network_at h1 c = Some r'" "obj_lower r' = obj_lower r" "obj_upper r' = obj_upper r"
      "matrix_at h1 (obj_network r') = matrix_at h (obj_network r)"
      "nums_at h1 (obj_ratings r') = nums_at h (obj_ratings r)"
      "is_nums h1 (obj_ratings r')"
    by blast
  let ?M1 = "map (\<lambda>row. map (\<lambda>elem. jsub elem
                 (jdiv (jsub (Num (obj_upper r)) (Num (obj_lower r))) (Num 2))) row)
              (matrix_at h (obj_network r))"
  let ?R1 = "map (\<lambda>e. if e = Null then Num (unratedStarRating alg) else e) (nums_at h (obj_ratings r))"
  let ?R2 = "map (\<lambda>e. jsub e (Num (ratingRescaleFactor alg))) ?R1"
  obtain h2 rnw where 2: "alloc_matrix h1 ?M1 = (h2, rnw)" by (cases "alloc_matrix h1 ?M1")
  note m = alloc_matrix_props [OF 2]
  have rs2: "nums_at h2 (obj_ratings r') = nums_at h (obj_ratings r)"
    using nums_at_prefix [OF m(1)] r'(6) r'(5) by (simp add: is_nums_def)
  obtain h3 rr0 where 3: "alloc h2 (NumArray ?R1) = (h3, rr0)" by (cases "alloc h2 (NumArray ?R1)")
  note n3 = alloc_nums_props [OF 3]
  obtain h4 rr where 4: "alloc h3 (NumArray ?R2) = (h4, rr)" by (cases "alloc h3 (NumArray ?R2)")
  note n4 = alloc_nums_props [OF 4]
  have p24: "prefix h2 h4" by (simp add: n3(1) n4(1))
  have M4: "matrix_at h4 rnw = ?M1" using matrix_at_prefix [OF p24 m(3) m(4)] m(2) by simp
  have R4: "nums_at h4 rr = ?R2" using n4(3) .
  have G': "getRecommendationVector_h alg h a =
     (case snd (matVecMul ?M1 ?R2) of
        Inl e \<Rightarrow> (h4, Inl e)
      | Inr v \<Rightarrow> (let (h5, recommendVector) = alloc h4 (NumArray v) in (h5, Inr recommendVector)))"
    by (simp add: getRecommendationVector_h_def r 1 r' 2 rs2 3 n3(3) 4 M4 R4 Let_def del: map_map)
  show ?thesis
  proof (cases "snd (matVecMul ?M1 ?R2)")
    case (Inl e)
    with G G' show ?thesis by (simp add: recommendation_vector_of_def)
  next
    case (Inr v)
    obtain h5 rv where 5: "alloc h4 (NumArray v) = (h5, rv)" by (cases "alloc h4 (NumArray v)")
    note n5 = alloc_nums_props [OF 5]
    from G G' Inr 5 have "h' = h5" "res = Inr rv" by simp_all
    with n5 Inr show ?thesis by (simp add: recommendation_vector_of_def)
  qed
qed

lemma write_idx_props:
  assumes "is_nums h rv"
  shows "is_nums (write_idx h rv i x) rv"
    and "nums_at (write_idx h rv i x) rv = setidx (nums_at h rv) i x"
  using assms by (auto simp: write_idx_def store_def is_nums_def nums_at_def)

lemma remove_rated_h_nums:
  "is_nums h rv \<Longrightarrow>
   is_nums (remove_rated_h h rv m (map (\<lambda>(i, r). (i, rating_val r)) es)) rv \<and>
   nums_at (remove_rated_h h rv m (map (\<lambda>(i, r). (i, rating_val r)) es)) rv =
     foldl (\<lambda>rv (i, r). if r \<noteq> None then setidx rv i (jsub m (Num 1)) else rv) (nums_at h rv) es"
proof (induction es arbitrary: h)
  case Nil
  then show ?case by (simp add: remove_rated_h_def)
next
  case (Cons e es)
  obtain i r where e: "e = (i, r)" by (cases e)
  have nz: "(rating_val r \<noteq> Null) = (r \<noteq> None)" by (cases r) simp_all
  show ?case
  proof (cases "r = None")
    case True
    then have "remove_rated_h h rv m (map (\<lambda>(i, r). (i, rating_val r)) (e # es)) =
               remove_rated_h h rv m (map (\<lambda>(i, r). (i, rating_val r)) es)"
      by (simp add: remove_rated_h_def e)
    then show ?thesis using Cons.IH [OF Cons.prems] True by (simp add: e)
  next
    case False
    let ?h = "write_idx h rv i (jsub m (Num 1))"
    from False have "remove_rated_h h rv m (map (\<lambda>(i, r). (i, rating_val r)) (e # es)) =
               remove_rated_h ?h rv m (map (\<lambda>(i, r). (i, rating_val r)) es)"
      by (simp add: remove_rated_h_def e nz)
    then show ?thesis
      using Cons.IH [OF write_idx_props(1) [OF Cons.prems]] False
      by (simp add: e write_idx_props(2) [OF Cons.prems])
  qed
qed

lemma entries_map: "entries (map f xs) = map (\<lambda>(i, x). (i, f x)) (entries xs)"
  by (simp add: entries_def zip_map2)

lemma Num_to_real: "is_fin x \<Longrightarrow> Num (to_real x) = x"
  by (cases x rule: is_fin.cases) simp_all

lemma rating_val_to_rating: "numeric x \<Longrightarrow> rating_val (to_rating x) = x"
  by (cases x rule: numeric.cases) simp_all

lemma load_rated_network_facts:
  assumes "load_rated_network h a = Some rn"
  shows "\<exists>r. rated_network_at h a = Some r \<and> a < length h
           \<and> matrix_at h (obj_network r) = map (map Num) (network rn)
           \<and> nums_at h (obj_ratings r) = map rating_val (ratings rn)
           \<and> is_nums h (obj_ratings r)
           \<and> lower rn = obj_lower r \<and> upper rn = obj_upper r"
proof -
  from assms obtain r where r: "rated_network_at h a = Some r"
    by (auto simp: load_rated_network_def split: option.splits)
  then have a: "a < length h" by (auto simp: rated_network_at_def split: if_splits)
  from assms r have ok: "list_all (list_all is_fin) (matrix_at h (obj_network r))"
    "is_nums h (obj_ratings r)" "list_all numeric (nums_at h (obj_ratings r))"
    and rn: "rn = \<lparr>nNodes = obj_nNodes r,
                    network = map (map to_real) (matrix_at h (obj_network r)),
                    ratings = map to_rating (nums_at h (obj_ratings r)),
                    lower = obj_lower r, upper = obj_upper r\<rparr>"
    by (auto simp: load_rated_network_def split: if_splits)
  have m: "map (map Num) (network rn) = matrix_at h (obj_network r)"
    using ok(1) by (simp add: rn list_all_iff Num_to_real map_idI)
  have n: "map rating_val (ratings rn) = nums_at h (obj_ratings r)"
    using ok(3) by (simp add: rn list_all_iff rating_val_to_rating map_idI)
  show ?thesis using r a m n ok(2) by (simp add: rn)
qed

lemma recommendation_vector_of_typed:
  "recommendation_vector_of alg (map (map Num) (network rn)) (map rating_val (ratings rn))
     (lower rn) (upper rn) = getRecommendationVector alg rn"
proof -
  have 1: "\<And>e. (if rating_val e = Null then Num (unratedStarRating alg) else rating_val e)
           = (case e of None \<Rightarrow> Num (unratedStarRating alg) | Some r \<Rightarrow> Num r)"
    by (case_tac e) simp_all
  show ?thesis
    by (simp add: recommendation_vector_of_def getRecommendationVector_def Let_def comp_def 1)
qed

text \<open>For a rated network stored on the heap, the model on the heap and the model on
  values give the same outcome.\<close>

lemma greedy_recommend_h_refines:
  assumes load: "load_rated_network h a = Some rn"
  shows "snd (greedy_recommend_h alg h a) = greedy_recommend alg rn"
proof -
  from load_rated_network_facts [OF load] obtain r where
    r: "rated_network_at h a = Some r" and a: "a < length h"
    and M: "matrix_at h (obj_network r) = map (map Num) (network rn)"
    and R: "nums_at h (obj_ratings r) = map rating_val (ratings rn)"
    and Rn: "is_nums h (obj_ratings r)"
    and lu: "lower rn = obj_lower r" "upper rn = obj_upper r"
    by blast
  obtain h1 res where G: "getRecommendationVector_h alg h a = (h1, res)"
    by (cases "getRecommendationVector_h alg h a")
  have p1: "prefix h h1" using prefix_getRecommendationVector_h(1) [OF G] .
  have V: "recommendation_vector_of alg (matrix_at h (obj_network r)) (nums_at h (obj_ratings r))
             (obj_lower r) (obj_upper r) = getRecommendationVector alg rn"
    using recommendation_vector_of_typed [of alg rn] by (simp add: M R lu)
  note res = getRecommendationVector_h_result [OF r G, unfolded V]
  show ?thesis
  proof (cases "getRecommendationVector alg rn")
    case (Inl e)
    with res G show ?thesis
      by (simp add: greedy_recommend_h_def greedy_recommend_def greedy_scores_def)
  next
    case (Inr v)
    with res obtain rv where rv: "res = Inr rv" "nums_at h1 rv = v" "is_nums h1 rv" by auto
    show ?thesis
    proof (cases "reduce (\<lambda>e1 e2. if jlt e1 e2 then e1 else e2) v")
      case (Inl e)
      with G rv Inr show ?thesis
        by (simp add: greedy_recommend_h_def greedy_recommend_def greedy_scores_def)
    next
      case minVal: (Inr minVal)
      have r1: "rated_network_at h1 a = Some r" using rated_network_at_prefix [OF p1 a] r by simp
      have R1: "nums_at h1 (obj_ratings r) = map rating_val (ratings rn)"
        using nums_at_prefix [OF p1] Rn R by (simp add: is_nums_def)
      let ?ents = "map (\<lambda>(i, r). (i, rating_val r)) (entries (ratings rn))"
      obtain h2 ea where 2: "alloc h1 (PairArray ?ents) = (h2, ea)"
        by (cases "alloc h1 (PairArray ?ents)")
      note e2 = alloc_pairs_props [OF 2]
      have rvlt: "rv < length h1" using rv(3) by (simp add: is_nums_def)
      have n2: "is_nums h2 rv" "nums_at h2 rv = v"
        using rv rvlt by (simp_all add: e2(1) is_nums_append nums_at_append)
      define h3 where "h3 = remove_rated_h h2 rv minVal ?ents"
      from remove_rated_h_nums [OF n2(1), of minVal "entries (ratings rn)"]
      have n3: "nums_at h3 rv = remove_rated minVal (ratings rn) v"
        by (simp add: h3_def n2(2) remove_rated_def)
      obtain h4 eb where 4: "alloc h3 (PairArray (entries (nums_at h3 rv))) = (h4, eb)"
        by (cases "alloc h3 (PairArray (entries (nums_at h3 rv)))")
      note e4 = alloc_pairs_props [OF 4]
      have "snd (greedy_recommend_h alg h a) =
        (case reduce (\<lambda>(i1, e1) (i2, e2). if jgt e1 e2 then (i1, e1) else (i2, e2))
                (entries (remove_rated minVal (ratings rn) v)) of
           Inl e \<Rightarrow> Inl e
         | Inr recommendation \<Rightarrow> Inr (fst recommendation))"
        using G rv minVal r1 R1 2 e2(3) 4 e4(3) n3
        by (simp add: greedy_recommend_h_def entries_map h3_def [symmetric] Let_def
            split: sum.splits)
      then show ?thesis
        using Inr minVal by (simp add: greedy_recommend_def greedy_scores_def)
    qed
  qed
qed

lemmas heap_eval = alloc_def store_def nums_at_def refs_at_def pairs_at_def rated_network_at_def
  matrix_at_def alloc_matrix_def cloneDeep_def write_idx_def

text \<open>
  Claim C7. \<open>recommend\<close>, greedy or probabilistic, leaves its input unchanged: every
  object that the heap held before the call is the same after it, whether the call
  returns an index or raises, so the rated network at the address that was passed (its
  similarity matrix, its ratings, its bounds) reads the same before and after.
\<close>

theorem recommend_leaves_input_unchanged:
  assumes "load_rated_network h a = Some rn"
  shows "prefix h (fst (greedy_recommend_h alg h a))
     \<and> load_rated_network (fst (greedy_recommend_h alg h a)) a = Some rn
     \<and> prefix h (fst (probabilistic_recommend_h alg h a u))
     \<and> load_rated_network (fst (probabilistic_recommend_h alg h a u)) a = Some rn"
  using assms prefix_greedy_recommend_h [of h alg a] prefix_probabilistic_recommend_h [of h alg a u]
  by (simp add: load_rated_network_prefix)

lemma tie_heap_load: "load_rated_network tie_heap 5 = Some tie_network"
  by (simp add: load_rated_network_def tie_heap_def rated_network_at_def is_refs_def
      is_nums_def refs_at_def nums_at_def matrix_at_def tie_network_def)

theorem recommend_leaves_input_unchanged_witness:
  "load_rated_network tie_heap 5 = Some tie_network
   \<and> prefix tie_heap (fst (greedy_recommend_h default_algorithm tie_heap 5))
   \<and> load_rated_network (fst (greedy_recommend_h default_algorithm tie_heap 5)) 5
       = Some tie_network
   \<and> prefix tie_heap (fst (probabilistic_recommend_h default_algorithm tie_heap 5 (1 / 2)))
   \<and> load_rated_network (fst (probabilistic_recommend_h default_algorithm tie_heap 5 (1 / 2))) 5
       = Some tie_network"
  using tie_heap_load
    recommend_leaves_input_unchanged [OF tie_heap_load, of default_algorithm "1 / 2"]
  by simp

subsection \<open>The two algorithms on the network with a tie\<close>

text \<open>The heap after \<open>getRecommendationVector\<close>: the copy of the network, the rescaled
  matrix, the two rescaled rating vectors and the scores, at address 18.\<close>

lemma tie_heap_recommendation_vector:
  "getRecommendationVector_h default_algorithm tie_heap 5 =
    (tie_heap @
      [NumArray [Num 0, Num 1, Num 1], NumArray [Num 1, Num 0, Num 0],
       NumArray [Num 1, Num 0, Num 0], RefArray [6, 7, 8], NumArray [Num 5, Null, Null],
       RatedNetworkObj \<lparr>obj_nNodes = 3, obj_network = 9, obj_ratings = 10,
                         obj_lower = 0, obj_upper = 1\<rparr>,
       NumArray [Num (- 1 / 2), Num (1 / 2), Num (1 / 2)],
       NumArray [Num (1 / 2), Num (- 1 / 2), Num (- 1 / 2)],
       NumArray [Num (1 / 2), Num (- 1 / 2), Num (- 1 / 2)],
       RefArray [12, 13, 14],
       NumArray [Num 5, Num (5 / 2), Num (5 / 2)],
       NumArray [Num (5 / 2), Num 0, Num 0],
       NumArray [Num (- 5 / 4), Num (5 / 4), Num (5 / 4)]],
     Inr 18)"
  by (simp add: getRecommendationVector_h_def tie_heap_def heap_eval arith_eval matVecMul_def
      default_algorithm_def ratingRescaleFactorDefault_def unratedStarRatingDefault_def Let_def)

lemma tie_heap_greedy: "snd (greedy_recommend_h default_algorithm tie_heap 5) = Inr 2"
  apply (simp add: greedy_recommend_h_def tie_heap_recommendation_vector)
  apply (simp add: remove_rated_h_def tie_heap_def heap_eval arith_eval
      reduce_def entries_def upt_rec Let_def)
  done

text \<open>With the scores \<open>[0, 5/4, 5/4]\<close> the distribution is \<open>[0, 1/2, 1/2]\<close>: a draw of
  \<open>1/4\<close> gives item 1, a draw of \<open>1/2\<close> item 2.\<close>

lemma tie_heap_probabilistic:
  "snd (probabilistic_recommend_h default_algorithm tie_heap 5 (1 / 4)) = Inr 1"
  "snd (probabilistic_recommend_h default_algorithm tie_heap 5 (1 / 2)) = Inr 2"
   apply (simp_all add: probabilistic_recommend_h_def tie_heap_recommendation_vector)
   apply (simp_all add: zero_rated_h_def normalize_scores_def accumulate_h_def
      sort_pairs_def goes_after_def tie_heap_def heap_eval arith_eval
      reduce_def entries_def upt_rec Let_def)
  done

end
